theory Spec2Isabelle
  imports Complex_Main "HOL-Library.Sublist"
begin

section \<open>The LLM route: model registry, health tracking, transport, orchestration\<close>

text \<open>
  A shallow embedding of \<^verbatim>\<open>src/app/api/llm/route.ts\<close>. The module's mutable
  \<^verbatim>\<open>modelHealth\<close> map is passed in and returned; everything the handler reads from
  outside (the request body, the environment variables, the clock, the upstream's
  replies) is an argument. One \<^verbatim>\<open>POST\<close> is modelled from its first line to its
  \<^verbatim>\<open>return\<close>, with no other request interleaved.
\<close>

subsection \<open>JSON values as JavaScript sees them\<close>

text \<open>
  A number that \<^verbatim>\<open>JSON.parse\<close> returns is a finite double or, for a literal too
  large (\<^verbatim>\<open>1e999\<close>), an infinity; it is never NaN. The handler only compares numbers
  (\<^verbatim>\<open>Math.min\<close>, \<^verbatim>\<open>Math.max\<close>, truthiness), which is exact, so a finite one is a
  \<^typ>\<open>real\<close>. An object is the list of its own properties, keys distinct.
\<close>

datatype jsnum = NegInfinity | Num real | Infinity

datatype json =
    JNull
  | JBool bool
  | JNum jsnum
  | JStr string
  | JArr "json list"
  | JObj "(string \<times> json) list"

text \<open>A value that may be \<^verbatim>\<open>undefined\<close> is a \<^typ>\<open>json option\<close>.\<close>

fun truthy :: "json option \<Rightarrow> bool" where
  "truthy None = False"
| "truthy (Some JNull) = False"
| "truthy (Some (JBool b)) = b"
| "truthy (Some (JNum n)) = (n \<noteq> Num 0)"
| "truthy (Some (JStr s)) = (s \<noteq> [])"
| "truthy (Some (JArr xs)) = True"
| "truthy (Some (JObj kvs)) = True"

text \<open>
  Reading a property of a value that is neither \<^verbatim>\<open>null\<close> nor \<^verbatim>\<open>undefined\<close>, for the
  names the handler reads (\<^verbatim>\<open>messages\<close>, \<^verbatim>\<open>max_tokens\<close>, \<^verbatim>\<open>temperature\<close>,
  \<^verbatim>\<open>top_p\<close>, \<^verbatim>\<open>provider\<close>, \<^verbatim>\<open>timeout\<close>, \<^verbatim>\<open>error\<close>, \<^verbatim>\<open>code\<close>): an object
  gives its own property, every other value gives \<^verbatim>\<open>undefined\<close>.
\<close>

fun get_prop :: "json \<Rightarrow> string \<Rightarrow> json option" where
  "get_prop (JObj kvs) k = map_of kvs k"
| "get_prop v k = None"

text \<open>Optional chaining \<^verbatim>\<open>v?.k\<close>.\<close>

fun opt_chain :: "json option \<Rightarrow> string \<Rightarrow> json option" where
  "opt_chain None k = None"
| "opt_chain (Some JNull) k = None"
| "opt_chain (Some v) k = get_prop v k"

text \<open>\<^verbatim>\<open>Math.max(1, x)\<close> and \<^verbatim>\<open>Math.min(x, cap)\<close> against a finite bound.\<close>

fun Math_max :: "real \<Rightarrow> jsnum \<Rightarrow> jsnum" where
  "Math_max b NegInfinity = Num b"
| "Math_max b (Num x) = Num (max b x)"
| "Math_max b Infinity = Infinity"

fun Math_min :: "jsnum \<Rightarrow> real \<Rightarrow> jsnum" where
  "Math_min NegInfinity c = NegInfinity"
| "Math_min (Num x) c = Num (min x c)"
| "Math_min Infinity c = Num c"

text \<open>\<^verbatim>\<open>s.includes(t)\<close>: \<open>t\<close> occurs in \<open>s\<close> as a contiguous run.\<close>

fun includes_str :: "string \<Rightarrow> string \<Rightarrow> bool" where
  "includes_str [] t = (t = [])"
| "includes_str (c # s) t = (prefix t (c # s) \<or> includes_str s t)"

text \<open>The decimal name of an array index, as object spread uses it for a key.\<close>

function decimal :: "nat \<Rightarrow> string" where
  "decimal n =
     (if n < 10 then [char_of (48 + n)] else decimal (n div 10) @ [char_of (48 + n mod 10)])"
  by pat_completeness auto
termination
  by (relation "measure id") auto

text \<open>
  The own enumerable properties that \<^verbatim>\<open>{...v}\<close> copies: those of an object, the
  indices of an array or of a string, none of any other value.
\<close>

fun spread :: "json option \<Rightarrow> (string \<rightharpoonup> json)" where
  "spread (Some (JObj kvs)) = map_of kvs"
| "spread (Some (JArr xs)) = map_of (zip (map decimal [0..<length xs]) xs)"
| "spread (Some (JStr s)) = map_of (zip (map decimal [0..<length s]) (map (\<lambda>c. JStr [c]) s))"
| "spread v = Map.empty"

subsection \<open>Model registry\<close>

record model_config =
  model :: string
  priority :: int
  maxRetries :: nat

text \<open>The two environment variables that name models; \<open>None\<close> is an unset variable.\<close>

record env =
  LLM_PRIMARY_MODEL :: "string option"
  LLM_SECONDARY_MODEL :: "string option"

text \<open>\<^verbatim>\<open>process.env.X || fallback\<close>: an unset or empty variable gives the fallback.\<close>

fun or_default :: "string option \<Rightarrow> string \<Rightarrow> string" where
  "or_default None d = d"
| "or_default (Some s) d = (if s = [] then d else s)"

text \<open>\<^verbatim>\<open>Object.values(MODEL_CONFIGS)\<close>, in the order the object literal declares them.\<close>

definition MODEL_CONFIGS :: "env \<Rightarrow> model_config list" where
  "MODEL_CONFIGS e =
     [\<lparr>model = or_default (LLM_PRIMARY_MODEL e) ''x-ai/grok-4-fast:free'',
       priority = 1, maxRetries = 2\<rparr>,
      \<lparr>model = or_default (LLM_SECONDARY_MODEL e) ''deepseek/deepseek-chat'',
       priority = 2, maxRetries = 3\<rparr>,
      \<lparr>model = ''meta-llama/llama-3.1-8b-instruct:free'',
       priority = 3, maxRetries = 1\<rparr>]"

definition MAX_TOKENS_DEFAULT :: real where
  "MAX_TOKENS_DEFAULT = 1200"

definition MAX_TOKENS_HARD_CAP :: real where
  "MAX_TOKENS_HARD_CAP = 2000"

definition FALLBACK_STATUS :: "int set" where
  "FALLBACK_STATUS = {402, 429, 500, 502, 503, 504}"

subsection \<open>Health tracking\<close>

text \<open>
  Timestamps are the integers of \<^verbatim>\<open>Date.now()\<close>. The average is a double in the
  source; it is a \<^typ>\<open>real\<close> here, exact where the double rounds, and nothing below
  depends on its value.
\<close>

record health =
  lastSuccess :: int
  failures :: int
  avgResponseTime :: real

text \<open>
  \<^verbatim>\<open>updateModelHealth(model, success, responseTime?)\<close>. The first argument is what
  \<^verbatim>\<open>Date.now()\<close> returns, read only when \<open>success\<close> holds. \<^verbatim>\<open>if (responseTime)\<close>
  holds for a response time that is given and not zero.
\<close>

definition updateModelHealth ::
  "int \<Rightarrow> string \<Rightarrow> bool \<Rightarrow> int option \<Rightarrow> (string \<rightharpoonup> health) \<Rightarrow> (string \<rightharpoonup> health)" where
  "updateModelHealth now m success responseTime modelHealth =
     (let h = (case modelHealth m of
                 Some h \<Rightarrow> h
               | None \<Rightarrow> \<lparr>lastSuccess = 0, failures = 0, avgResponseTime = 0\<rparr>);
          h' = (if success then
                  (let h1 = h\<lparr>lastSuccess := now, failures := max 0 (failures h - 1)\<rparr>
                   in case responseTime of
                        Some rt \<Rightarrow>
                          if rt \<noteq> 0
                          then h1\<lparr>avgResponseTime := (avgResponseTime h1 + real_of_int rt) / 2\<rparr>
                          else h1
                      | None \<Rightarrow> h1)
                else h\<lparr>failures := failures h + 1\<rparr>)
      in modelHealth(m \<mapsto> h'))"

text \<open>The predicate of the filter in \<^verbatim>\<open>getHealthyModels\<close>.\<close>

definition healthy :: "int \<Rightarrow> (string \<rightharpoonup> health) \<Rightarrow> model_config \<Rightarrow> bool" where
  "healthy now modelHealth config =
     (case modelHealth (model config) of
        None \<Rightarrow> True
      | Some h \<Rightarrow>
          (let recentFailures = failures h > 3;
               oldLastSuccess = now - lastSuccess h > 300000
           in \<not> (recentFailures \<and> oldLastSuccess)))"

text \<open>\<^verbatim>\<open>Array.prototype.sort\<close> is stable, as \<^const>\<open>sort_key\<close> is.\<close>

definition getHealthyModels :: "env \<Rightarrow> int \<Rightarrow> (string \<rightharpoonup> health) \<Rightarrow> model_config list" where
  "getHealthyModels e now modelHealth =
     sort_key priority (filter (healthy now modelHealth) (MODEL_CONFIGS e))"

subsection \<open>Transport\<close>

record payload =
  messages :: "json list"
  max_tokens :: jsnum
  temperature :: "jsnum option"
  top_p :: "jsnum option"

text \<open>
  What one \<^verbatim>\<open>fetch\<close> does, as the environment decides it. \<open>Threw msg\<close>: the
  \<^verbatim>\<open>fetch\<close> or the reading of the body rejects (network failure, abort at the
  timeout) with that message. \<open>Responded status raw parsed elapsed now\<close>: a response
  arrives with that status and body text; \<open>parsed\<close> is what \<^verbatim>\<open>JSON.parse(raw)\<close>
  returns, \<open>None\<close> when it throws; \<open>elapsed\<close> is \<^verbatim>\<open>Date.now() - startTime\<close> and
  \<open>now\<close> the clock when the health record is updated.
\<close>

datatype fetch_result =
    Threw string
  | Responded int string "json option" int int

text \<open>
  The upstream: its answer to the \<open>n\<close>-th \<^verbatim>\<open>fetch\<close> of this request (from 0), made
  for the given model.
\<close>

type_synonym upstream = "nat \<Rightarrow> string \<Rightarrow> fetch_result"

text \<open>
  What the handler does that the outside can observe, in order: a \<^verbatim>\<open>fetch\<close> for a
  model with a payload and a timeout, and a \<^verbatim>\<open>setTimeout\<close> pause in milliseconds.
\<close>

datatype event =
    Fetch string payload json
  | Sleep int

fun is_Fetch :: "event \<Rightarrow> bool" where
  "is_Fetch (Fetch m p t) = True"
| "is_Fetch (Sleep d) = False"

record world =
  modelHealth :: "string \<rightharpoonup> health"
  trace :: "event list"

definition fetches :: "world \<Rightarrow> event list" where
  "fetches w = filter is_Fetch (trace w)"

text \<open>The object \<^verbatim>\<open>callOpenRouter\<close> returns. \<^verbatim>\<open>res.ok\<close> is a status from 200 to 299.\<close>

record result =
  ok :: bool
  status :: int
  data :: "json option"
  raw :: string
  responseTime :: int

text \<open>
  \<^verbatim>\<open>callOpenRouter(model, payload, timeout)\<close>: \<open>Inl msg\<close> is the exception it
  rethrows. The health record is updated on both paths; the clock is not read for a
  failure, so any number stands for it there. The upstream answers by the number of
  calls made so far.
\<close>

definition callOpenRouter ::
  "upstream \<Rightarrow> string \<Rightarrow> payload \<Rightarrow> json \<Rightarrow> world \<Rightarrow> (string + result) \<times> world" where
  "callOpenRouter up m p timeout w =
     (let w1 = w\<lparr>trace := trace w @ [Fetch m p timeout]\<rparr>
      in case up (length (fetches w)) m of
           Responded st body parsed elapsed now \<Rightarrow>
             (let res_ok = (200 \<le> st \<and> st \<le> 299)
              in (Inr \<lparr>ok = res_ok, status = st, data = parsed, raw = body,
                       responseTime = elapsed\<rparr>,
                  w1\<lparr>modelHealth := updateModelHealth now m res_ok (Some elapsed) (modelHealth w1)\<rparr>))
         | Threw msg \<Rightarrow>
             (Inl msg,
              w1\<lparr>modelHealth := updateModelHealth 0 m False None (modelHealth w1)\<rparr>))"

subsection \<open>Orchestration\<close>

text \<open>
  The message of an exception the inner \<^verbatim>\<open>catch\<close> receives: that of a rejected
  \<^verbatim>\<open>fetch\<close>, which the environment gives, or that of the response constructor refusing
  a status, whose text is the platform's and is named here by the status.
\<close>

datatype thrown =
    Message string
  | Refused_Status int

text \<open>The two shapes of \<^verbatim>\<open>lastError\<close>: model, status, details, attempt; model, error, attempt.\<close>

datatype last_error =
    Http_Error string int json nat
  | Thrown_Error string thrown nat

text \<open>
  The responses of \<^verbatim>\<open>POST\<close>, one constructor for each \<^verbatim>\<open>return NextResponse.json\<close>,
  in the order of the source, with the parts that vary:
  \<^item> \<open>Bad_Request\<close>: status 400, "messages[] is required and must not be empty";
  \<^item> \<open>No_Healthy_Models\<close>: status 503, "No healthy models available";
  \<^item> \<open>Completion obj\<close>: status 200, the object literal with the upstream's body spread
    over it;
  \<^item> \<open>Upstream_Error model_attempted status attempt details\<close>: the error of one attempt,
    sent with status \<^verbatim>\<open>result.status || 500\<close>;
  \<^item> \<open>All_Failed lastError healthStatus\<close>: status 502, "All providers failed after retries";
  \<^item> \<open>Server_Error\<close>: status 500, from the outer \<^verbatim>\<open>catch\<close> (its message and timestamp
    are left out).
\<close>

datatype response =
    Bad_Request
  | No_Healthy_Models
  | Completion "string \<rightharpoonup> json"
  | Upstream_Error string int nat json
  | All_Failed "last_error option" "string \<rightharpoonup> health"
  | Server_Error

text \<open>
  The status the handler asks \<^verbatim>\<open>NextResponse.json\<close> for: the \<^verbatim>\<open>status\<close> of the
  second argument, 200 where there is none. Whether a response with that status can be
  built is \<open>accepts_status\<close>, below.
\<close>

fun http_status :: "response \<Rightarrow> int" where
  "http_status Bad_Request = 400"
| "http_status No_Healthy_Models = 503"
| "http_status (Completion obj) = 200"
| "http_status (Upstream_Error m st a d) = (if st = 0 then 500 else st)"
| "http_status (All_Failed le hs) = 502"
| "http_status Server_Error = 500"

text \<open>
  \<^verbatim>\<open>NextResponse.json(body, { status })\<close> builds a \<^verbatim>\<open>Response\<close> with a body. The
  constructor is the platform's, not this repository's; by the Fetch standard it throws
  a \<^verbatim>\<open>RangeError\<close> for a status outside 200 to 599 and a \<^verbatim>\<open>TypeError\<close> for a status
  that allows no body (204, 205 and 304 in that range). \<open>http_status\<close> is the status the
  handler passes; a response exists only where the constructor accepts it. The five
  fixed statuses are accepted, so only the upstream error, sent with the upstream's
  status, can be refused.
\<close>

definition accepts_status :: "int \<Rightarrow> bool" where
  "accepts_status st \<longleftrightarrow> 200 \<le> st \<and> st \<le> 599 \<and> st \<notin> {204, 205, 304}"

definition NextResponse_json :: "response \<Rightarrow> thrown + response" where
  "NextResponse_json resp =
     (if accepts_status (http_status resp) then Inr resp
      else Inl (Refused_Status (http_status resp)))"

definition RETRY_CODES :: "string list" where
  "RETRY_CODES =
     [''insufficient_quota'', ''insufficient_provider_quota'', ''payment_required'',
      ''rate_limited'']"

text \<open>
  The second disjunct of \<^verbatim>\<open>shouldFallback\<close>: \<^verbatim>\<open>data?.error?.code\<close> is truthy and
  one of the four codes (\<^verbatim>\<open>includes\<close> compares with strict equality).
\<close>

definition has_retry_code :: "json option \<Rightarrow> bool" where
  "has_retry_code d =
     (let code = opt_chain (opt_chain d ''error'') ''code''
      in truthy code \<and> (case code of Some (JStr s) \<Rightarrow> s \<in> set RETRY_CODES | _ \<Rightarrow> False))"

definition shouldFallback :: "result \<Rightarrow> bool" where
  "shouldFallback r = (status r \<in> FALLBACK_STATUS \<or> has_retry_code (data r))"

text \<open>\<^verbatim>\<open>result.data || result.raw\<close>.\<close>

definition details_of :: "result \<Rightarrow> json" where
  "details_of r =
     (case data r of
        Some v \<Rightarrow> if truthy (Some v) then v else JStr (raw r)
      | None \<Rightarrow> JStr (raw r))"

text \<open>The object of the success response: four properties, then \<^verbatim>\<open>...result.data\<close>.\<close>

definition completion_object :: "string \<Rightarrow> nat \<Rightarrow> result \<Rightarrow> (string \<rightharpoonup> json)" where
  "completion_object m attempt r =
     [''model_used'' \<mapsto> JStr m,
      ''response_time'' \<mapsto> JNum (Num (real_of_int (responseTime r))),
      ''attempt'' \<mapsto> JNum (Num (real (attempt + 1))),
      ''health_status'' \<mapsto> JStr ''healthy'']
     ++ spread (data r)"

text \<open>
  The inner loop \<^verbatim>\<open>for (let attempt = 0; attempt < modelConfig.maxRetries; attempt++)\<close>,
  entered at \<open>attempt\<close>. \<open>Inl\<close> is a \<^verbatim>\<open>return\<close> from inside the loop, \<open>Inr\<close> the
  value of \<^verbatim>\<open>lastError\<close> when the loop ends. The test \<^verbatim>\<open>attempt < maxRetries - 1\<close>
  is only reached where \<open>maxRetries\<close> is at least 1. Both returns stand inside the
  \<^verbatim>\<open>try\<close>: what \<^verbatim>\<open>NextResponse.json\<close> throws for the upstream error goes to the
  same \<^verbatim>\<open>catch\<close> as what \<^verbatim>\<open>callOpenRouter\<close> throws, before \<^verbatim>\<open>lastError\<close> is set
  from the result. The completion is sent with status 200, which is accepted.
\<close>

function attempt_loop ::
  "upstream \<Rightarrow> model_config \<Rightarrow> payload \<Rightarrow> json \<Rightarrow> nat \<Rightarrow> last_error option \<Rightarrow> world
   \<Rightarrow> (response + last_error option) \<times> world" where
  "attempt_loop up mc p timeout attempt lastError w =
     (if attempt < maxRetries mc then
        (case callOpenRouter up (model mc) p timeout w of
           (Inr r, w1) \<Rightarrow>
             if ok r \<and> truthy (data r) then
               (Inl (Completion (completion_object (model mc) attempt r)), w1)
             else if \<not> shouldFallback r then
               (case NextResponse_json
                       (Upstream_Error (model mc) (status r) (attempt + 1) (details_of r)) of
                  Inr resp \<Rightarrow> (Inl resp, w1)
                | Inl msg \<Rightarrow>
                    attempt_loop up mc p timeout (attempt + 1)
                      (Some (Thrown_Error (model mc) msg (attempt + 1)))
                      (if attempt < maxRetries mc - 1
                       then w1\<lparr>trace := trace w1 @ [Sleep 1000]\<rparr>
                       else w1))
             else
               attempt_loop up mc p timeout (attempt + 1)
                 (Some (Http_Error (model mc) (status r) (details_of r) (attempt + 1)))
                 (if attempt < maxRetries mc - 1
                  then w1\<lparr>trace := trace w1 @ [Sleep (2 ^ attempt * 1000)]\<rparr>
                  else w1)
         | (Inl msg, w1) \<Rightarrow>
             attempt_loop up mc p timeout (attempt + 1)
               (Some (Thrown_Error (model mc) (Message msg) (attempt + 1)))
               (if attempt < maxRetries mc - 1
                then w1\<lparr>trace := trace w1 @ [Sleep 1000]\<rparr>
                else w1))
      else (Inr lastError, w))"
  by pat_completeness auto
termination
  by (relation "measure (\<lambda>(up, mc, p, timeout, attempt, lastError, w). maxRetries mc - attempt)")
    auto

text \<open>The outer loop \<^verbatim>\<open>for (const modelConfig of availableModels)\<close>.\<close>

fun model_loop ::
  "upstream \<Rightarrow> model_config list \<Rightarrow> payload \<Rightarrow> json \<Rightarrow> last_error option \<Rightarrow> world
   \<Rightarrow> (response + last_error option) \<times> world" where
  "model_loop up [] p timeout lastError w = (Inr lastError, w)"
| "model_loop up (mc # mcs) p timeout lastError w =
     (case attempt_loop up mc p timeout 0 lastError w of
        (Inl resp, w1) \<Rightarrow> (Inl resp, w1)
      | (Inr lastError1, w1) \<Rightarrow> model_loop up mcs p timeout lastError1 w1)"

text \<open>\<^verbatim>\<open>finalMaxTokens\<close>, from the \<^verbatim>\<open>max_tokens\<close> of the body.\<close>

definition finalMaxTokens :: "json option \<Rightarrow> jsnum" where
  "finalMaxTokens v =
     Math_min
       (Math_max 1 (case v of Some (JNum n) \<Rightarrow> n | _ \<Rightarrow> Num MAX_TOKENS_DEFAULT))
       MAX_TOKENS_HARD_CAP"

text \<open>\<^verbatim>\<open>if (typeof x === "number") basePayload.x = x\<close>.\<close>

fun number_of :: "json option \<Rightarrow> jsnum option" where
  "number_of (Some (JNum n)) = Some n"
| "number_of v = None"

definition basePayload :: "json list \<Rightarrow> json \<Rightarrow> payload" where
  "basePayload msgs body =
     \<lparr>messages = msgs,
      max_tokens = finalMaxTokens (get_prop body ''max_tokens''),
      temperature = number_of (get_prop body ''temperature''),
      top_p = number_of (get_prop body ''top_p'')\<rparr>"

text \<open>\<^verbatim>\<open>availableModels\<close>: health is consulted for the provider "auto" only.\<close>

definition availableModels ::
  "env \<Rightarrow> int \<Rightarrow> json \<Rightarrow> (string \<rightharpoonup> health) \<Rightarrow> model_config list" where
  "availableModels e now provider mh =
     (if provider = JStr ''auto'' then getHealthyModels e now mh
      else filter
             (\<lambda>config.
                if provider = JStr ''grok'' then includes_str (model config) ''grok''
                else if provider = JStr ''deepseek'' then includes_str (model config) ''deepseek''
                else True)
             (MODEL_CONFIGS e))"

text \<open>A destructuring default: it applies to a property that is \<^verbatim>\<open>undefined\<close>.\<close>

fun with_default :: "json option \<Rightarrow> json \<Rightarrow> json" where
  "with_default None d = d"
| "with_default (Some v) d = v"

text \<open>
  The destructuring of the body, with its defaults: \<^verbatim>\<open>messages = []\<close>,
  \<^verbatim>\<open>provider = "auto"\<close>, \<^verbatim>\<open>timeout = 30000\<close>.
\<close>

definition messages_of :: "json \<Rightarrow> json" where
  "messages_of body = with_default (get_prop body ''messages'') (JArr [])"

definition provider_of :: "json \<Rightarrow> json" where
  "provider_of body = with_default (get_prop body ''provider'') (JStr ''auto'')"

definition timeout_of :: "json \<Rightarrow> json" where
  "timeout_of body = with_default (get_prop body ''timeout'') (JNum (Num 30000))"

text \<open>
  \<^verbatim>\<open>POST(req)\<close>. \<open>req\<close> is what \<^verbatim>\<open>req.json()\<close> gives, \<open>None\<close> when it throws; \<open>now\<close>
  is the clock that \<^verbatim>\<open>getHealthyModels\<close> reads; \<open>mh\<close> is \<^verbatim>\<open>modelHealth\<close> when the
  request arrives. Destructuring \<^verbatim>\<open>null\<close> throws, which the outer \<^verbatim>\<open>catch\<close>
  answers. \<^verbatim>\<open>Array.isArray(messages)\<close> with a length other than 0 is a \<open>JArr\<close> of
  a non-empty list. The trace starts empty.
\<close>

definition POST ::
  "env \<Rightarrow> upstream \<Rightarrow> int \<Rightarrow> json option \<Rightarrow> (string \<rightharpoonup> health) \<Rightarrow> response \<times> world" where
  "POST e up now req mh =
     (let w0 = \<lparr>modelHealth = mh, trace = []\<rparr>
      in case req of
           None \<Rightarrow> (Server_Error, w0)
         | Some JNull \<Rightarrow> (Server_Error, w0)
         | Some body \<Rightarrow>
             (case messages_of body of
                JArr (msg # msgs) \<Rightarrow>
                  (let p = basePayload (msg # msgs) body;
                       available = availableModels e now (provider_of body) mh
                   in if available = [] then (No_Healthy_Models, w0)
                      else (case model_loop up available p (timeout_of body) None w0 of
                              (Inl resp, w1) \<Rightarrow> (resp, w1)
                            | (Inr lastError, w1) \<Rightarrow>
                                (All_Failed lastError (modelHealth w1), w1)))
              | _ \<Rightarrow> (Bad_Request, w0)))"

subsection \<open>Notions the statements below use\<close>

text \<open>The record the tracker holds for a model: a fresh one when it has none.\<close>

definition current :: "(string \<rightharpoonup> health) \<Rightarrow> string \<Rightarrow> health" where
  "current mh m =
     (case mh m of
        Some h \<Rightarrow> h
      | None \<Rightarrow> \<lparr>lastSuccess = 0, failures = 0, avgResponseTime = 0\<rparr>)"

text \<open>No record counts fewer than zero failures.\<close>

definition health_ok :: "(string \<rightharpoonup> health) \<Rightarrow> bool" where
  "health_ok mh = (\<forall>h \<in> ran mh. 0 \<le> failures h)"

text \<open>A sequence of \<^verbatim>\<open>updateModelHealth\<close> calls, each with its clock, model, outcome and time.\<close>

fun recordOutcomes ::
  "(int \<times> string \<times> bool \<times> int option) list \<Rightarrow> (string \<rightharpoonup> health) \<Rightarrow> (string \<rightharpoonup> health)" where
  "recordOutcomes [] mh = mh"
| "recordOutcomes ((now, m, success, rt) # calls) mh =
     recordOutcomes calls (updateModelHealth now m success rt mh)"

text \<open>
  The object \<^verbatim>\<open>callOpenRouter\<close> builds from a response; a rejected \<^verbatim>\<open>fetch\<close> has
  none.
\<close>

definition reply_result :: "fetch_result \<Rightarrow> result option" where
  "reply_result fr =
     (case fr of
        Threw msg \<Rightarrow> None
      | Responded st body parsed elapsed now \<Rightarrow>
          Some \<lparr>ok = (200 \<le> st \<and> st \<le> 299), status = st, data = parsed, raw = body,
                responseTime = elapsed\<rparr>)"

text \<open>
  What the body of the inner loop does with a reply, in the order of its tests: it
  returns the completion, or it records an error and goes on, or it returns the error
  of this attempt. An exception is caught and goes on.
\<close>

datatype verdict = SUCCESS | FATAL | RETRYABLE

definition classify :: "fetch_result \<Rightarrow> verdict" where
  "classify fr =
     (case reply_result fr of
        None \<Rightarrow> RETRYABLE
      | Some r \<Rightarrow>
          if ok r \<and> truthy (data r) then SUCCESS
          else if shouldFallback r then RETRYABLE
          else FATAL)"

text \<open>
  The response the loop returns for a reply to attempt \<open>attempt\<close> (from 0), if it returns:
  the completion, or the upstream error when the constructor accepts its status.
\<close>

definition final_response :: "string \<Rightarrow> nat \<Rightarrow> fetch_result \<Rightarrow> response option" where
  "final_response m attempt fr =
     (case reply_result fr of
        None \<Rightarrow> None
      | Some r \<Rightarrow>
          if ok r \<and> truthy (data r) then Some (Completion (completion_object m attempt r))
          else if shouldFallback r then None
          else if accepts_status (if status r = 0 then 500 else status r)
          then Some (Upstream_Error m (status r) (attempt + 1) (details_of r))
          else None)"

text \<open>
  A reply that lets the loop go on: an exception of the \<^verbatim>\<open>fetch\<close>, a failure that asks
  for fallback, or a failure that does not but whose status the response constructor
  refuses.
\<close>

definition goes_on :: "fetch_result \<Rightarrow> bool" where
  "goes_on fr =
     (case reply_result fr of
        None \<Rightarrow> True
      | Some r \<Rightarrow>
          \<not> (ok r \<and> truthy (data r))
          \<and> (shouldFallback r \<or> \<not> accepts_status (if status r = 0 then 500 else status r)))"

text \<open>
  The value \<^verbatim>\<open>lastError\<close> takes after a reply that lets the loop go on: the error of
  the result after a failure that asks for fallback, the exception otherwise.
\<close>

definition error_of :: "string \<Rightarrow> nat \<Rightarrow> fetch_result \<Rightarrow> last_error" where
  "error_of m attempt fr =
     (case fr of
        Threw msg \<Rightarrow> Thrown_Error m (Message msg) (attempt + 1)
      | Responded st body parsed elapsed now \<Rightarrow>
          if st \<in> FALLBACK_STATUS \<or> has_retry_code parsed then
            Http_Error m st
              (case parsed of
                 Some v \<Rightarrow> if truthy (Some v) then v else JStr body
               | None \<Rightarrow> JStr body)
              (attempt + 1)
          else Thrown_Error m (Refused_Status (if st = 0 then 500 else st)) (attempt + 1))"

text \<open>
  The pause before the next attempt of the same model: \<open>2 ^ attempt * 1000\<close> ms after a
  failure that asks for fallback, 1000 ms after an exception.
\<close>

definition delay :: "nat \<Rightarrow> fetch_result \<Rightarrow> int" where
  "delay attempt fr =
     (case fr of
        Threw msg \<Rightarrow> 1000
      | Responded st body parsed elapsed now \<Rightarrow>
          if st \<in> FALLBACK_STATUS \<or> has_retry_code parsed then 2 ^ attempt * 1000 else 1000)"

definition pause :: "nat \<Rightarrow> model_config \<Rightarrow> fetch_result \<Rightarrow> world \<Rightarrow> world" where
  "pause attempt mc fr w =
     (if attempt < maxRetries mc - 1 then w\<lparr>trace := trace w @ [Sleep (delay attempt fr)]\<rparr>
      else w)"

text \<open>The world after one call of \<^verbatim>\<open>callOpenRouter\<close>.\<close>

definition after_call :: "upstream \<Rightarrow> string \<Rightarrow> payload \<Rightarrow> json \<Rightarrow> world \<Rightarrow> world" where
  "after_call up m p t w = snd (callOpenRouter up m p t w)"

text \<open>
  The events of one model whose replies all let the loop go on, from attempt \<open>a\<close>, the
  first of them being the \<open>n0\<close>-th \<^verbatim>\<open>fetch\<close> of the request: each attempt is a
  \<^verbatim>\<open>fetch\<close>, followed by a pause unless it is the model's last.
\<close>

definition schedule ::
  "upstream \<Rightarrow> model_config \<Rightarrow> payload \<Rightarrow> json \<Rightarrow> nat \<Rightarrow> nat \<Rightarrow> event list" where
  "schedule up mc p t n0 a =
     concat (map (\<lambda>k. Fetch (model mc) p t #
                       (if k < maxRetries mc - 1
                        then [Sleep (delay k (up (n0 + (k - a)) (model mc)))] else []))
               [a..<maxRetries mc])"

text \<open>
  The calls a list of candidates can receive at most: each model \<open>maxRetries\<close> times,
  in the order of the list.
\<close>

definition plan :: "model_config list \<Rightarrow> payload \<Rightarrow> json \<Rightarrow> event list" where
  "plan mcs p t = concat (map (\<lambda>mc. replicate (maxRetries mc) (Fetch (model mc) p t)) mcs)"

text \<open>
  The shape of a run of the outer loop from world \<open>w\<close> to result \<open>x\<close> and world \<open>w'\<close>,
  with \<open>fs\<close> the calls it made. A run that falls out of the loop made the whole plan. A
  run that returns a response made the plan of the candidates before one of them,
  then \<open>a + 1\<close> calls of that one, and the response is that of the last reply. Every
  reply but the one that made a run return let the loop go on.
\<close>

definition run_shape ::
  "upstream \<Rightarrow> model_config list \<Rightarrow> payload \<Rightarrow> json \<Rightarrow> world
   \<Rightarrow> (response + last_error option) \<Rightarrow> world \<Rightarrow> event list \<Rightarrow> bool" where
  "run_shape up mcs p t w x w' fs \<longleftrightarrow>
     fetches w' = fetches w @ fs
     \<and> ((\<exists>le'. x = Inr le') \<longrightarrow> fs = plan mcs p t)
     \<and> (\<forall>resp. x = Inl resp \<longrightarrow>
          (\<exists>pre mc rest a. mcs = pre @ mc # rest
             \<and> fs = plan pre p t @ replicate (Suc a) (Fetch (model mc) p t)
             \<and> a < maxRetries mc
             \<and> final_response (model mc) a (up (length (fetches w') - 1) (model mc)) = Some resp
             \<and> last (trace w') = Fetch (model mc) p t))
     \<and> (\<forall>j < length fs. (Suc j < length fs \<or> (\<exists>le'. x = Inr le')) \<longrightarrow>
          (\<exists>m. fs ! j = Fetch m p t \<and> goes_on (up (length (fetches w) + j) m)))"

text \<open>A body that passes the validation, with its messages.\<close>

definition valid_request :: "json \<Rightarrow> json list \<Rightarrow> bool" where
  "valid_request body msgs \<longleftrightarrow> body \<noteq> JNull \<and> messages_of body = JArr msgs \<and> msgs \<noteq> []"

text \<open>The world when a request arrives.\<close>

definition w0 :: "(string \<rightharpoonup> health) \<Rightarrow> world" where
  "w0 mh = \<lparr>modelHealth = mh, trace = []\<rparr>"

text \<open>
  The attempt outcomes a response carries: the one \<^verbatim>\<open>lastError\<close> of the 502
  response (none when it is \<^verbatim>\<open>null\<close>), the one failed attempt of an upstream error.
\<close>

fun reported_attempts :: "response \<Rightarrow> last_error list" where
  "reported_attempts (All_Failed (Some le) hs) = [le]"
| "reported_attempts (Upstream_Error m st a d) = [Http_Error m st d a]"
| "reported_attempts r = []"

text \<open>
  Concrete inputs for the examples: no environment variable set; a body with one user
  message and the given provider; an upstream that answers every call with the same
  status and parsed body.
\<close>

definition no_env :: env where
  "no_env = \<lparr>LLM_PRIMARY_MODEL = None, LLM_SECONDARY_MODEL = None\<rparr>"

definition request_for :: "json \<Rightarrow> json" where
  "request_for provider =
     JObj [(''messages'', JArr [JObj [(''role'', JStr ''user''), (''content'', JStr ''hi'')]]),
           (''provider'', provider)]"

definition always :: "int \<Rightarrow> json option \<Rightarrow> upstream" where
  "always st parsed = (\<lambda>n m. Responded st ''body'' parsed 10 1000)"

text \<open>A body with one user message and the given \<^verbatim>\<open>max_tokens\<close>.\<close>

definition request_tokens :: "json \<Rightarrow> json" where
  "request_tokens n =
     JObj [(''messages'', JArr [JObj [(''role'', JStr ''user''), (''content'', JStr ''hi'')]]),
           (''max_tokens'', n)]"

text \<open>A payload, and an upstream that cannot be reached.\<close>

definition ping :: payload where
  "ping = \<lparr>messages = [JObj [(''role'', JStr ''user''), (''content'', JStr ''hi'')]],
           max_tokens = Num 1200, temperature = None, top_p = None\<rparr>"

definition unreachable :: upstream where
  "unreachable = (\<lambda>n m. Threw ''fetch failed'')"

text \<open>
  An upstream whose third registry model answers every call with the given parsed body,
  the other models with a 429.
\<close>

definition third_answers :: "json \<Rightarrow> upstream" where
  "third_answers parsed =
     (\<lambda>n m. if m = ''meta-llama/llama-3.1-8b-instruct:free''
            then Responded 200 ''body'' (Some parsed) 10 1000
            else Responded 429 ''body'' None 10 1000)"

section \<open>Health tracker\<close>

lemma update_success:
  "\<exists>h1. updateModelHealth now m True rt mh m = Some h1 \<and> lastSuccess h1 = now
        \<and> failures h1 = max 0 (failures (current mh m) - 1)"
  by (simp add: updateModelHealth_def current_def Let_def split: option.splits)

lemma update_failure:
  "updateModelHealth now m False rt mh m
     = Some ((current mh m)\<lparr>failures := failures (current mh m) + 1\<rparr>)"
  by (simp add: updateModelHealth_def current_def Let_def split: option.splits)

lemma update_other:
  "m' \<noteq> m \<Longrightarrow> updateModelHealth now m s rt mh m' = mh m'"
  by (simp add: updateModelHealth_def Let_def)

lemma update_health_ok:
  assumes "health_ok mh"
  shows "health_ok (updateModelHealth now m s rt mh)"
proof -
  have cur: "0 \<le> failures (current mh m)"
    using assms by (auto simp: health_ok_def current_def ran_def split: option.splits)
  show ?thesis
    unfolding health_ok_def
  proof
    fix h
    assume "h \<in> ran (updateModelHealth now m s rt mh)"
    then obtain k where k: "updateModelHealth now m s rt mh k = Some h"
      by (auto simp: ran_def)
    show "0 \<le> failures h"
    proof (cases "k = m")
      case same: True
      show ?thesis
      proof (cases s)
        case True
        with k same update_success[of now m rt mh] show ?thesis by auto
      next
        case False
        with k same update_failure[of now m rt mh] cur show ?thesis by auto
      qed
    next
      case False
      with k have "mh k = Some h" by (simp add: update_other)
      with assms show ?thesis by (auto simp: health_ok_def ran_def)
    qed
  qed
qed

lemma recordOutcomes_health_ok:
  "health_ok mh \<Longrightarrow> health_ok (recordOutcomes calls mh)"
  by (induction calls mh rule: recordOutcomes.induct) (simp_all add: update_health_ok)

lemma success_decrements:
  "failures (current (updateModelHealth t m True r mh) m) = max 0 (failures (current mh m) - 1)"
  using update_success[of t m r mh] by (auto simp: current_def)

text \<open>
  C7. Starting from records with no negative count, or from no record at all, no
  sequence of outcome reports makes a count negative. A success sets \<open>lastSuccess\<close> to the clock and takes one
  from \<open>failures\<close>, stopping at 0; a failure adds one to \<open>failures\<close> and changes no
  other field. So a model at 5 failures is at 4 after one success, and at 1 after
  three more.
\<close>

theorem failures_never_negative:
  assumes "health_ok mh"
  shows "health_ok (recordOutcomes calls mh)
    \<and> health_ok (recordOutcomes calls Map.empty)
    \<and> (\<exists>h1. updateModelHealth now m True rt mh m = Some h1 \<and> lastSuccess h1 = now
           \<and> failures h1 = max 0 (failures (current mh m) - 1))
    \<and> updateModelHealth now m False rt mh m
        = Some ((current mh m)\<lparr>failures := failures (current mh m) + 1\<rparr>)
    \<and> (failures (current mh m) = 5 \<longrightarrow>
         failures (current (recordOutcomes [(t1, m, True, r1)] mh) m) = 4
       \<and> failures (current (recordOutcomes
            [(t1, m, True, r1), (t2, m, True, r2), (t3, m, True, r3), (t4, m, True, r4)] mh) m) = 1)"
proof -
  have "health_ok Map.empty"
    by (simp add: health_ok_def)
  then have "health_ok (recordOutcomes calls Map.empty)"
    by (rule recordOutcomes_health_ok)
  then show ?thesis
    using assms
    by (simp add: recordOutcomes_health_ok update_success update_failure success_decrements)
qed

theorem failures_never_negative_witness:
  "health_ok [''m'' \<mapsto> \<lparr>lastSuccess = 7, failures = 5, avgResponseTime = 0\<rparr>]
   \<and> health_ok (recordOutcomes [(10, ''m'', False, None), (20, ''m'', True, Some 3)]
        [''m'' \<mapsto> \<lparr>lastSuccess = 7, failures = 5, avgResponseTime = 0\<rparr>])
   \<and> failures (current (recordOutcomes [(10, ''m'', True, Some 3)]
        [''m'' \<mapsto> \<lparr>lastSuccess = 7, failures = 5, avgResponseTime = 0\<rparr>]) ''m'') = 4
   \<and> failures (current (recordOutcomes
        [(10, ''m'', True, Some 3), (20, ''m'', True, None), (30, ''m'', True, Some 0),
         (40, ''m'', True, Some 9)]
        [''m'' \<mapsto> \<lparr>lastSuccess = 7, failures = 5, avgResponseTime = 0\<rparr>]) ''m'') = 1"
proof -
  let ?mh = "[''m'' \<mapsto> \<lparr>lastSuccess = 7, failures = 5, avgResponseTime = 0\<rparr>]"
  have ok: "health_ok ?mh"
    by (simp add: health_ok_def)
  have cur: "failures (current ?mh ''m'') = 5"
    by (simp add: current_def)
  from failures_never_negative[OF ok,
      of "[(10, ''m'', False, None), (20, ''m'', True, Some 3)]" 0 "''m''" None
         10 "Some 3" 20 None 30 "Some 0" 40 "Some 9"] cur ok
  show ?thesis by blast
qed

section \<open>The retry loops\<close>

declare attempt_loop.simps [simp del]

lemma trace_after_call [simp]: "trace (after_call up m p t w) = trace w @ [Fetch m p t]"
  by (simp add: after_call_def callOpenRouter_def Let_def split: fetch_result.splits)

lemma fetches_append [simp]: "fetches (w\<lparr>trace := trace w @ evs\<rparr>) = fetches w @ filter is_Fetch evs"
  by (simp add: fetches_def)

lemma fetches_after_call [simp]: "fetches (after_call up m p t w) = fetches w @ [Fetch m p t]"
  by (simp add: fetches_def)

lemma attempt_loop_done:
  "\<not> attempt < maxRetries mc \<Longrightarrow> attempt_loop up mc p t attempt le w = (Inr le, w)"
  by (simp add: attempt_loop.simps)

lemma attempt_loop_final:
  assumes "attempt < maxRetries mc"
    and "final_response (model mc) attempt (up (length (fetches w)) (model mc)) = Some resp"
  shows "attempt_loop up mc p t attempt le w = (Inl resp, after_call up (model mc) p t w)"
  using assms
  by (subst attempt_loop.simps)
     (auto simp: final_response_def reply_result_def after_call_def callOpenRouter_def Let_def
           NextResponse_json_def
           split: fetch_result.splits if_splits)

lemma fetches_pause [simp]: "fetches (pause a mc fr w) = fetches w"
  by (simp add: pause_def)

lemma attempt_loop_retry:
  assumes "attempt < maxRetries mc"
    and "goes_on (up (length (fetches w)) (model mc))"
  shows "attempt_loop up mc p t attempt le w =
     attempt_loop up mc p t (attempt + 1)
       (Some (error_of (model mc) attempt (up (length (fetches w)) (model mc))))
       (pause attempt mc (up (length (fetches w)) (model mc)) (after_call up (model mc) p t w))"
  unfolding pause_def
  using assms
  by (subst attempt_loop.simps)
     (auto simp: goes_on_def reply_result_def after_call_def callOpenRouter_def Let_def error_of_def
           delay_def details_of_def NextResponse_json_def shouldFallback_def
           split: fetch_result.splits if_splits option.splits)

lemma goes_on_cases:
  "goes_on fr \<longleftrightarrow> final_response m a fr = None"
  by (auto simp: goes_on_def final_response_def split: option.splits)

lemma retryable_goes_on: "classify fr = RETRYABLE \<Longrightarrow> goes_on fr"
  by (auto simp: classify_def goes_on_def split: option.splits if_splits)


lemma attempt_loop_run:
  assumes "attempt_loop up mc p t a le w = (x, w')"
  shows "\<exists>k. fetches w' = fetches w @ replicate k (Fetch (model mc) p t)
      \<and> k \<le> maxRetries mc - a
      \<and> (\<forall>le'. x = Inr le' \<longrightarrow> k = maxRetries mc - a)
      \<and> (\<forall>resp. x = Inl resp \<longrightarrow>
            1 \<le> k \<and> last (trace w') = Fetch (model mc) p t
            \<and> final_response (model mc) (a + k - 1)
                 (up (length (fetches w) + k - 1) (model mc)) = Some resp)
      \<and> (\<forall>j < k. (j + 1 < k \<or> (\<exists>le'. x = Inr le')) \<longrightarrow>
            goes_on (up (length (fetches w) + j) (model mc)))"
  using assms
proof (induction "maxRetries mc - a" arbitrary: a le w)
  case 0
  then have "x = Inr le" "w' = w"
    by (simp_all add: attempt_loop_done)
  then show ?case
    using 0 by simp
next
  case (Suc n)
  then have lt: "a < maxRetries mc" by simp
  let ?fr = "up (length (fetches w)) (model mc)"
  show ?case
  proof (cases "final_response (model mc) a ?fr")
    case (Some resp)
    from attempt_loop_final[of a mc up w resp p t le] lt Some Suc.prems
    have "x = Inl resp" "w' = after_call up (model mc) p t w"
      by simp_all
    then show ?thesis
      using lt Some by (intro exI[of _ 1]) simp
  next
    case None
    then have retry: "goes_on ?fr"
      using goes_on_cases[of ?fr "model mc" a] by simp
    let ?w2 = "pause a mc ?fr (after_call up (model mc) p t w)"
    from attempt_loop_retry[of a mc up w p t le] lt retry Suc.prems
    have run: "attempt_loop up mc p t (a + 1) (Some (error_of (model mc) a ?fr)) ?w2 = (x, w')"
      by simp
    have n: "n = maxRetries mc - (a + 1)"
      using Suc.hyps(2) by simp
    from Suc.hyps(1)[OF n run]
    obtain k where k: "fetches w' = fetches ?w2 @ replicate k (Fetch (model mc) p t)"
      "k \<le> maxRetries mc - (a + 1)"
      "\<forall>le'. x = Inr le' \<longrightarrow> k = maxRetries mc - (a + 1)"
      "\<forall>resp. x = Inl resp \<longrightarrow>
            1 \<le> k \<and> last (trace w') = Fetch (model mc) p t
            \<and> final_response (model mc) (a + 1 + k - 1)
                 (up (length (fetches ?w2) + k - 1) (model mc)) = Some resp"
      "\<forall>j < k. (j + 1 < k \<or> (\<exists>le'. x = Inr le')) \<longrightarrow>
            goes_on (up (length (fetches ?w2) + j) (model mc))"
      by blast
    have f2: "fetches ?w2 = fetches w @ [Fetch (model mc) p t]"
      by simp
    have c1: "fetches w' = fetches w @ replicate (Suc k) (Fetch (model mc) p t)"
      using k(1) f2 by simp
    have c2: "Suc k \<le> maxRetries mc - a"
      using k(2) lt by simp
    have c3: "\<forall>le'. x = Inr le' \<longrightarrow> Suc k = maxRetries mc - a"
      using k(3) lt by auto
    have c4: "\<forall>resp. x = Inl resp \<longrightarrow>
            1 \<le> Suc k \<and> last (trace w') = Fetch (model mc) p t
            \<and> final_response (model mc) (a + Suc k - 1)
                 (up (length (fetches w) + Suc k - 1) (model mc)) = Some resp"
    proof (intro allI impI)
      fix resp assume "x = Inl resp"
      with k(4) have *: "1 \<le> k" "last (trace w') = Fetch (model mc) p t"
        "final_response (model mc) (a + 1 + k - 1)
                 (up (length (fetches ?w2) + k - 1) (model mc)) = Some resp"
        by auto
      have e1: "a + 1 + k - 1 = a + Suc k - 1" by simp
      have e2: "length (fetches ?w2) + k - 1 = length (fetches w) + Suc k - 1"
        using *(1) by (simp add: f2)
      show "1 \<le> Suc k \<and> last (trace w') = Fetch (model mc) p t
            \<and> final_response (model mc) (a + Suc k - 1)
                 (up (length (fetches w) + Suc k - 1) (model mc)) = Some resp"
        using * e1 e2 by simp
    qed
    have c5: "\<forall>j < Suc k. (j + 1 < Suc k \<or> (\<exists>le'. x = Inr le')) \<longrightarrow>
            goes_on (up (length (fetches w) + j) (model mc))"
    proof (intro allI impI)
      fix j assume j: "j < Suc k" "j + 1 < Suc k \<or> (\<exists>le'. x = Inr le')"
      show "goes_on (up (length (fetches w) + j) (model mc))"
      proof (cases j)
        case 0
        then show ?thesis using retry by simp
      next
        case (Suc i)
        with j have "i < k" "i + 1 < k \<or> (\<exists>le'. x = Inr le')" by auto
        with k(5) have "goes_on (up (length (fetches ?w2) + i) (model mc))"
          by blast
        then show ?thesis using Suc by (simp add: f2)
      qed
    qed
    show ?thesis
      using c1 c2 c3 c4 c5 by blast
  qed
qed


lemma plan_Nil [simp]: "plan [] p t = []"
  by (simp add: plan_def)

lemma plan_Cons [simp]:
  "plan (mc # mcs) p t = replicate (maxRetries mc) (Fetch (model mc) p t) @ plan mcs p t"
  by (simp add: plan_def)

lemma plan_append [simp]: "plan (xs @ ys) p t = plan xs p t @ plan ys p t"
  by (simp add: plan_def)

lemma length_plan: "length (plan mcs p t) = sum_list (map maxRetries mcs)"
  by (induction mcs) simp_all

lemma model_loop_run:
  assumes "model_loop up mcs p t le w = (x, w')"
  shows "\<exists>fs. run_shape up mcs p t w x w' fs"
  using assms
proof (induction mcs arbitrary: le w)
  case Nil
  then show ?case
    by (intro exI[of _ "[]"]) (auto simp: run_shape_def)
next
  case (Cons mc mcs)
  obtain y w1 where y: "attempt_loop up mc p t 0 le w = (y, w1)"
    by (cases "attempt_loop up mc p t 0 le w")
  let ?F = "Fetch (model mc) p t"
  from attempt_loop_run[OF y]
  obtain k where k: "fetches w1 = fetches w @ replicate k ?F"
      "k \<le> maxRetries mc"
      "\<forall>le'. y = Inr le' \<longrightarrow> k = maxRetries mc"
      "\<forall>resp. y = Inl resp \<longrightarrow>
            1 \<le> k \<and> last (trace w1) = ?F
            \<and> final_response (model mc) (0 + k - 1)
                 (up (length (fetches w) + k - 1) (model mc)) = Some resp"
      "\<forall>j < k. (j + 1 < k \<or> (\<exists>le'. y = Inr le')) \<longrightarrow>
            goes_on (up (length (fetches w) + j) (model mc))"
    by auto
  show ?case
  proof (cases y)
    case (Inl resp)
    with y Cons.prems have x: "x = Inl resp" "w' = w1"
      by simp_all
    from k(4) Inl have k1: "1 \<le> k" "last (trace w1) = ?F"
      "final_response (model mc) (k - 1) (up (length (fetches w) + k - 1) (model mc)) = Some resp"
      by auto
    have "run_shape up (mc # mcs) p t w x w' (replicate k ?F)"
      unfolding run_shape_def
    proof (intro conjI allI impI)
      show "fetches w' = fetches w @ replicate k ?F"
        using k(1) x by simp
      show "replicate k ?F = plan (mc # mcs) p t" if "\<exists>le'. x = Inr le'"
        using that x by simp
      show "\<exists>pre mc' rest a. mc # mcs = pre @ mc' # rest
             \<and> replicate k ?F = plan pre p t @ replicate (Suc a) (Fetch (model mc') p t)
             \<and> a < maxRetries mc'
             \<and> final_response (model mc') a (up (length (fetches w') - 1) (model mc')) = Some r
             \<and> last (trace w') = Fetch (model mc') p t" if "x = Inl r" for r
      proof (rule exI[of _ "[]"], rule exI[of _ mc], rule exI[of _ mcs], rule exI[of _ "k - 1"],
          intro conjI)
        show "mc # mcs = [] @ mc # mcs" by simp
        show "replicate k ?F = plan [] p t @ replicate (Suc (k - 1)) ?F"
          using k1(1) by simp
        show "k - 1 < maxRetries mc"
          using k1(1) k(2) by simp
        have "length (fetches w') - 1 = length (fetches w) + k - 1"
          using k(1) x by simp
        then show "final_response (model mc) (k - 1) (up (length (fetches w') - 1) (model mc)) = Some r"
          using k1(3) that x by simp
        show "last (trace w') = ?F"
          using k1(2) x by simp
      qed
      show "\<exists>m. replicate k ?F ! j = Fetch m p t
              \<and> goes_on (up (length (fetches w) + j) m)"
        if "j < length (replicate k ?F)" "Suc j < length (replicate k ?F) \<or> (\<exists>le'. x = Inr le')" for j
        using that k(5) x by auto
    qed
    then show ?thesis ..
  next
    case (Inr le1)
    with y Cons.prems have run: "model_loop up mcs p t le1 w1 = (x, w')"
      by simp
    from k(3) Inr have kmax: "k = maxRetries mc"
      by simp
    from Cons.IH[OF run] obtain fs where fs: "run_shape up mcs p t w1 x w' fs" ..
    let ?R = "replicate (maxRetries mc) ?F"
    have len1: "length (fetches w1) = length (fetches w) + maxRetries mc"
      using k(1) kmax by simp
    have "run_shape up (mc # mcs) p t w x w' (?R @ fs)"
      unfolding run_shape_def
    proof (intro conjI allI impI)
      show "fetches w' = fetches w @ ?R @ fs"
        using fs k(1) kmax by (simp add: run_shape_def)
      show "?R @ fs = plan (mc # mcs) p t" if "\<exists>le'. x = Inr le'"
        using that fs by (simp add: run_shape_def)
      show "\<exists>pre mc' rest a. mc # mcs = pre @ mc' # rest
             \<and> ?R @ fs = plan pre p t @ replicate (Suc a) (Fetch (model mc') p t)
             \<and> a < maxRetries mc'
             \<and> final_response (model mc') a (up (length (fetches w') - 1) (model mc')) = Some r
             \<and> last (trace w') = Fetch (model mc') p t" if "x = Inl r" for r
      proof -
        from fs that obtain pre mc' rest a where *: "mcs = pre @ mc' # rest"
            "fs = plan pre p t @ replicate (Suc a) (Fetch (model mc') p t)"
            "a < maxRetries mc'"
            "final_response (model mc') a (up (length (fetches w') - 1) (model mc')) = Some r"
            "last (trace w') = Fetch (model mc') p t"
          unfolding run_shape_def by blast
        show ?thesis
          using *
          by (intro exI[of _ "mc # pre"], intro exI[of _ mc'], intro exI[of _ rest],
              intro exI[of _ a]) simp
      qed
      show "\<exists>m. (?R @ fs) ! j = Fetch m p t
              \<and> goes_on (up (length (fetches w) + j) m)"
        if j: "j < length (?R @ fs)" "Suc j < length (?R @ fs) \<or> (\<exists>le'. x = Inr le')" for j
      proof (cases "j < maxRetries mc")
        case True
        then have "goes_on (up (length (fetches w) + j) (model mc))"
          using k(5) kmax Inr by simp
        then show ?thesis
          using True by (simp add: nth_append)
      next
        case False
        let ?i = "j - maxRetries mc"
        have i: "?i < length fs" "Suc ?i < length fs \<or> (\<exists>le'. x = Inr le')"
          using j False by auto
        with fs obtain m where "fs ! ?i = Fetch m p t"
            "goes_on (up (length (fetches w1) + ?i) m)"
          unfolding run_shape_def by blast
        then show ?thesis
          using False len1 by (simp add: nth_append)
      qed
    qed
    then show ?thesis ..
  qed
qed


lemma fetches_w0 [simp]: "fetches (w0 mh) = []"
  by (simp add: w0_def fetches_def)

lemma POST_valid:
  assumes "valid_request body msgs"
  shows "POST e up now (Some body) mh =
     (if availableModels e now (provider_of body) mh = [] then (No_Healthy_Models, w0 mh)
      else (case model_loop up (availableModels e now (provider_of body) mh)
                   (basePayload msgs body) (timeout_of body) None (w0 mh) of
              (Inl resp, w1) \<Rightarrow> (resp, w1)
            | (Inr lastError, w1) \<Rightarrow> (All_Failed lastError (modelHealth w1), w1)))"
proof -
  from assms obtain msg rest where m: "messages_of body = JArr (msg # rest)" "msgs = msg # rest"
    by (cases msgs) (auto simp: valid_request_def)
  from assms have "body \<noteq> JNull"
    by (simp add: valid_request_def)
  then show ?thesis
    using m by (cases body) (simp_all add: POST_def w0_def Let_def)
qed

lemma POST_invalid:
  assumes "\<nexists>body msgs. req = Some body \<and> valid_request body msgs"
  shows "snd (POST e up now req mh) = w0 mh"
    and "fst (POST e up now req mh) = Server_Error \<or> fst (POST e up now req mh) = Bad_Request"
proof -
  have "snd (POST e up now req mh) = w0 mh
     \<and> (fst (POST e up now req mh) = Server_Error \<or> fst (POST e up now req mh) = Bad_Request)"
  proof (cases req)
    case None
    then show ?thesis by (simp add: POST_def w0_def)
  next
    case (Some body)
    show ?thesis
    proof (cases "body = JNull")
      case True
      with Some show ?thesis by (simp add: POST_def w0_def)
    next
      case False
      with assms Some have "\<nexists>msg rest. messages_of body = JArr (msg # rest)"
        by (auto simp: valid_request_def)
      with False Some show ?thesis
        by (cases body; cases "messages_of body")
           (auto simp: POST_def w0_def Let_def split: list.splits)
    qed
  qed
  then show "snd (POST e up now req mh) = w0 mh"
    and "fst (POST e up now req mh) = Server_Error \<or> fst (POST e up now req mh) = Bad_Request"
    by simp_all
qed


lemma schedule_done: "\<not> a < maxRetries mc \<Longrightarrow> schedule up mc p t n0 a = []"
  by (simp add: schedule_def)

lemma schedule_step:
  assumes "a < maxRetries mc"
  shows "schedule up mc p t n0 a =
     Fetch (model mc) p t #
       (if a < maxRetries mc - 1 then [Sleep (delay a (up n0 (model mc)))] else [])
       @ schedule up mc p t (Suc n0) (Suc a)"
proof -
  let ?f = "\<lambda>k. Fetch (model mc) p t #
                       (if k < maxRetries mc - 1
                        then [Sleep (delay k (up (n0 + (k - a)) (model mc)))] else [])"
  let ?g = "\<lambda>k. Fetch (model mc) p t #
                       (if k < maxRetries mc - 1
                        then [Sleep (delay k (up (Suc n0 + (k - Suc a)) (model mc)))] else [])"
  have tail: "map ?f [Suc a..<maxRetries mc] = map ?g [Suc a..<maxRetries mc]"
  proof (rule map_cong[OF refl])
    fix k
    assume "k \<in> set [Suc a..<maxRetries mc]"
    then have "Suc a \<le> k"
      by simp
    then have "n0 + (k - a) = Suc n0 + (k - Suc a)"
      by arith
    then show "?f k = ?g k"
      by (simp only:)
  qed
  have unroll: "[a..<maxRetries mc] = a # [Suc a..<maxRetries mc]"
    using assms by (rule upt_conv_Cons)
  have "schedule up mc p t n0 a = concat (map ?f (a # [Suc a..<maxRetries mc]))"
    unfolding schedule_def unroll ..
  also have "\<dots> = ?f a @ concat (map ?f [Suc a..<maxRetries mc])"
    by simp
  also have "\<dots> = ?f a @ concat (map ?g [Suc a..<maxRetries mc])"
    by (simp only: tail)
  also have "\<dots> = Fetch (model mc) p t #
       (if a < maxRetries mc - 1 then [Sleep (delay a (up n0 (model mc)))] else [])
       @ schedule up mc p t (Suc n0) (Suc a)"
    by (simp add: schedule_def)
  finally show ?thesis .
qed

lemma trace_pause:
  "trace (pause a mc fr w) = trace w @ (if a < maxRetries mc - 1 then [Sleep (delay a fr)] else [])"
  by (simp add: pause_def)

lemma attempt_loop_exhaust:
  assumes "\<forall>n. goes_on (up n (model mc))"
  shows "\<exists>w'. attempt_loop up mc p t a le w =
            (Inr (if a < maxRetries mc
                  then Some (error_of (model mc) (maxRetries mc - 1)
                         (up (length (fetches w) + (maxRetries mc - 1 - a)) (model mc)))
                  else le), w')
          \<and> trace w' = trace w @ schedule up mc p t (length (fetches w)) a"
proof (induction "maxRetries mc - a" arbitrary: a le w)
  case 0
  then show ?case
    by (simp add: attempt_loop_done schedule_done)
next
  case (Suc n)
  then have lt: "a < maxRetries mc" by simp
  let ?fr = "up (length (fetches w)) (model mc)"
  let ?w2 = "pause a mc ?fr (after_call up (model mc) p t w)"
  have retry: "goes_on ?fr"
    using assms by simp
  have step: "attempt_loop up mc p t a le w =
      attempt_loop up mc p t (a + 1) (Some (error_of (model mc) a ?fr)) ?w2"
    using attempt_loop_retry[of a mc up w p t le] lt retry by simp
  have n: "n = maxRetries mc - (a + 1)"
    using Suc.hyps(2) by simp
  from Suc.hyps(1)[OF n, of "Some (error_of (model mc) a ?fr)" ?w2]
  obtain w' where w': "attempt_loop up mc p t (a + 1) (Some (error_of (model mc) a ?fr)) ?w2 =
            (Inr (if a + 1 < maxRetries mc
                  then Some (error_of (model mc) (maxRetries mc - 1)
                         (up (length (fetches ?w2) + (maxRetries mc - 1 - (a + 1))) (model mc)))
                  else Some (error_of (model mc) a ?fr)), w')"
      "trace w' = trace ?w2 @ schedule up mc p t (length (fetches ?w2)) (a + 1)"
    by blast
  have idx: "a + 1 < maxRetries mc \<Longrightarrow>
      length (fetches ?w2) + (maxRetries mc - 1 - (a + 1)) = length (fetches w) + (maxRetries mc - 1 - a)"
    by simp
  have last: "\<not> a + 1 < maxRetries mc \<Longrightarrow> a = maxRetries mc - 1 \<and> maxRetries mc - 1 - a = 0"
    using lt by simp
  have res: "(if a + 1 < maxRetries mc
                  then Some (error_of (model mc) (maxRetries mc - 1)
                         (up (length (fetches ?w2) + (maxRetries mc - 1 - (a + 1))) (model mc)))
                  else Some (error_of (model mc) a ?fr))
           = Some (error_of (model mc) (maxRetries mc - 1)
                         (up (length (fetches w) + (maxRetries mc - 1 - a)) (model mc)))"
  proof (cases "a + 1 < maxRetries mc")
    case True
    then show ?thesis using idx by simp
  next
    case False
    with last have "a = maxRetries mc - 1" "maxRetries mc - 1 - a = 0" by simp_all
    then show ?thesis using False by simp
  qed
  have tr: "trace w' = trace w @ schedule up mc p t (length (fetches w)) a"
    using w'(2) lt by (simp add: schedule_step[OF lt] trace_pause)
  show ?case
    using step w'(1) res tr lt by simp
qed


lemma fetches_schedule:
  "filter is_Fetch (schedule up mc p t n0 a) = replicate (maxRetries mc - a) (Fetch (model mc) p t)"
proof (induction "maxRetries mc - a" arbitrary: a n0)
  case 0
  then show ?case by (simp add: schedule_done)
next
  case (Suc n)
  then have lt: "a < maxRetries mc" by simp
  have n: "n = maxRetries mc - Suc a"
    using Suc.hyps(2) by simp
  have "maxRetries mc - a = Suc (maxRetries mc - Suc a)"
    using lt by simp
  then show ?case
    using Suc.hyps(1)[OF n, of "Suc n0"] by (simp add: schedule_step[OF lt])
qed

lemma model_loop_exhaust:
  assumes "\<forall>n. \<forall>mc \<in> set mcs. goes_on (up n (model mc))"
  shows "\<exists>le' w'. model_loop up mcs p t le w = (Inr le', w')
      \<and> fetches w' = fetches w @ plan mcs p t
      \<and> (mcs \<noteq> [] \<and> (\<forall>mc \<in> set mcs. 1 \<le> maxRetries mc) \<longrightarrow>
           le' = Some (error_of (model (last mcs)) (maxRetries (last mcs) - 1)
                   (up (length (fetches w') - 1) (model (last mcs)))))"
  using assms
proof (induction mcs arbitrary: le w)
  case Nil
  then show ?case by simp
next
  case (Cons mc mcs)
  then have all: "\<forall>n. goes_on (up n (model mc))"
    by simp
  let ?le1 = "if 0 < maxRetries mc
                  then Some (error_of (model mc) (maxRetries mc - 1)
                         (up (length (fetches w) + (maxRetries mc - 1 - 0)) (model mc)))
                  else le"
  from attempt_loop_exhaust[of up mc p t 0 le w] all
  obtain w1 where w1: "attempt_loop up mc p t 0 le w = (Inr ?le1, w1)"
      "trace w1 = trace w @ schedule up mc p t (length (fetches w)) 0"
    by blast
  have f1: "fetches w1 = fetches w @ replicate (maxRetries mc) (Fetch (model mc) p t)"
    using w1(2) by (simp add: fetches_def fetches_schedule)
  from Cons.prems have rest: "\<forall>n. \<forall>mc \<in> set mcs. goes_on (up n (model mc))"
    by simp
  from Cons.IH[of ?le1 w1] rest
  obtain le' w' where r: "model_loop up mcs p t ?le1 w1 = (Inr le', w')"
      "fetches w' = fetches w1 @ plan mcs p t"
      "mcs \<noteq> [] \<and> (\<forall>mc \<in> set mcs. 1 \<le> maxRetries mc) \<longrightarrow>
           le' = Some (error_of (model (last mcs)) (maxRetries (last mcs) - 1)
                   (up (length (fetches w') - 1) (model (last mcs))))"
    by blast
  have run: "model_loop up (mc # mcs) p t le w = (Inr le', w')"
    using w1(1) r(1) by simp
  have fs: "fetches w' = fetches w @ plan (mc # mcs) p t"
    using r(2) f1 by simp
  have le: "le' = Some (error_of (model (last (mc # mcs))) (maxRetries (last (mc # mcs)) - 1)
                   (up (length (fetches w') - 1) (model (last (mc # mcs)))))"
    if pos: "\<forall>c \<in> set (mc # mcs). 1 \<le> maxRetries c"
  proof (cases "mcs = []")
    case True
    with r(1) have "le' = ?le1" "w' = w1" by simp_all
    moreover have "0 < maxRetries mc" using pos by simp
    moreover from this have "length (fetches w1) - 1 = length (fetches w) + (maxRetries mc - 1 - 0)"
      using f1 by simp
    ultimately show ?thesis using True by simp
  next
    case False
    with r(3) pos show ?thesis by simp
  qed
  show ?case
    using run fs le by blast
qed

lemma registry_retries: "\<forall>mc \<in> set (MODEL_CONFIGS e). 1 \<le> maxRetries mc"
  by (simp add: MODEL_CONFIGS_def)

lemma available_subset: "set (availableModels e now pr mh) \<subseteq> set (MODEL_CONFIGS e)"
  by (auto simp: availableModels_def getHealthyModels_def)

lemma available_retries: "\<forall>mc \<in> set (availableModels e now pr mh). 1 \<le> maxRetries mc"
  using registry_retries available_subset by blast

lemma POST_exhaust:
  assumes valid: "valid_request body msgs"
    and cands: "availableModels e now (provider_of body) mh \<noteq> []"
    and retry: "\<forall>n. \<forall>mc \<in> set (availableModels e now (provider_of body) mh).
                  goes_on (up n (model mc))"
  shows "\<exists>le w'. POST e up now (Some body) mh = (All_Failed (Some le) (modelHealth w'), w')
      \<and> length (fetches w') = sum_list (map maxRetries (availableModels e now (provider_of body) mh))
      \<and> le = error_of (model (last (availableModels e now (provider_of body) mh)))
                (maxRetries (last (availableModels e now (provider_of body) mh)) - 1)
                (up (sum_list (map maxRetries (availableModels e now (provider_of body) mh)) - 1)
                    (model (last (availableModels e now (provider_of body) mh))))"
proof -
  let ?cs = "availableModels e now (provider_of body) mh"
  let ?p = "basePayload msgs body"
  let ?t = "timeout_of body"
  from model_loop_exhaust[of ?cs up ?p ?t None "w0 mh"] retry
  obtain le' w' where r: "model_loop up ?cs ?p ?t None (w0 mh) = (Inr le', w')"
      "fetches w' = fetches (w0 mh) @ plan ?cs ?p ?t"
      "?cs \<noteq> [] \<and> (\<forall>mc \<in> set ?cs. 1 \<le> maxRetries mc) \<longrightarrow>
           le' = Some (error_of (model (last ?cs)) (maxRetries (last ?cs) - 1)
                   (up (length (fetches w') - 1) (model (last ?cs))))"
    by blast
  have len: "length (fetches w') = sum_list (map maxRetries ?cs)"
    using r(2) by (simp add: length_plan)
  have le': "le' = Some (error_of (model (last ?cs)) (maxRetries (last ?cs) - 1)
                   (up (sum_list (map maxRetries ?cs) - 1) (model (last ?cs))))"
    using r(3) cands available_retries[of e now "provider_of body" mh] len by simp
  have "POST e up now (Some body) mh = (All_Failed le' (modelHealth w'), w')"
    using POST_valid[OF valid, of e up now mh] cands r(1) by simp
  then show ?thesis
    using len le' by blast
qed

section \<open>The handler\<close>

lemma run_shape_Inl:
  assumes "run_shape up mcs p t w (Inl resp) w' fs"
  shows "\<exists>pre mc rest a. mcs = pre @ mc # rest
             \<and> fs = plan pre p t @ replicate (Suc a) (Fetch (model mc) p t)
             \<and> a < maxRetries mc
             \<and> final_response (model mc) a (up (length (fetches w') - 1) (model mc)) = Some resp
             \<and> last (trace w') = Fetch (model mc) p t"
  using assms unfolding run_shape_def by blast

lemma run_shape_Inr:
  assumes "run_shape up mcs p t w (Inr le) w' fs"
  shows "fs = plan mcs p t"
  using assms unfolding run_shape_def by blast

lemma run_shape_fetches:
  assumes "run_shape up mcs p t w x w' fs"
  shows "fetches w' = fetches w @ fs"
  using assms unfolding run_shape_def by blast

lemma run_shape_retry:
  assumes "run_shape up mcs p t w x w' fs"
    and "j < length fs" and "Suc j < length fs \<or> (\<exists>le'. x = Inr le')"
  shows "\<exists>m. fs ! j = Fetch m p t \<and> goes_on (up (length (fetches w) + j) m)"
  using assms unfolding run_shape_def by blast

lemma set_plan: "ev \<in> set (plan mcs p t) \<Longrightarrow> \<exists>m. ev = Fetch m p t"
  by (auto simp: plan_def)

lemma run_shape_payload:
  assumes "run_shape up mcs p t w x w' fs" and "ev \<in> set fs"
  shows "\<exists>m. ev = Fetch m p t"
proof (cases x)
  case (Inl resp)
  with run_shape_Inl[of up mcs p t w resp w' fs] assms(1)
  obtain pre and mc :: model_config and a
    where "fs = plan pre p t @ replicate (Suc a) (Fetch (model mc) p t)"
    by blast
  with assms(2) show ?thesis
    using set_plan[of ev pre p t] by auto
next
  case (Inr le')
  with assms(1) have "fs = plan mcs p t"
    by (simp add: run_shape_Inr)
  with assms(2) show ?thesis
    using set_plan by blast
qed

lemma POST_shape:
  assumes "POST e up now req mh = (resp, w')"
  shows "(w' = w0 mh \<and> resp \<in> {Server_Error, Bad_Request, No_Healthy_Models})
     \<or> (\<exists>body msgs x. req = Some body \<and> valid_request body msgs
           \<and> availableModels e now (provider_of body) mh \<noteq> []
           \<and> model_loop up (availableModels e now (provider_of body) mh)
                (basePayload msgs body) (timeout_of body) None (w0 mh) = (x, w')
           \<and> resp = (case x of Inl r \<Rightarrow> r | Inr le \<Rightarrow> All_Failed le (modelHealth w')))"
proof (cases "\<exists>body msgs. req = Some body \<and> valid_request body msgs")
  case False
  with POST_invalid[of req e up now mh] assms show ?thesis
    by auto
next
  case True
  then obtain body msgs where v: "req = Some body" "valid_request body msgs"
    by blast
  let ?cs = "availableModels e now (provider_of body) mh"
  show ?thesis
  proof (cases "?cs = []")
    case True
    with POST_valid[OF v(2), of e up now mh] assms v(1) show ?thesis
      by simp
  next
    case False
    obtain x w1 where x: "model_loop up ?cs (basePayload msgs body) (timeout_of body) None (w0 mh) = (x, w1)"
      by (cases "model_loop up ?cs (basePayload msgs body) (timeout_of body) None (w0 mh)")
    with POST_valid[OF v(2), of e up now mh] assms v(1) False
    have "w' = w1" "resp = (case x of Inl r \<Rightarrow> r | Inr le \<Rightarrow> All_Failed le (modelHealth w'))"
      by (auto split: sum.splits)
    with v False x show ?thesis
      by blast
  qed
qed

lemma POST_run:
  assumes "POST e up now req mh = (resp, w')" and "fetches w' \<noteq> []"
  shows "\<exists>body msgs x. req = Some body \<and> valid_request body msgs
           \<and> run_shape up (availableModels e now (provider_of body) mh)
                (basePayload msgs body) (timeout_of body) (w0 mh) x w' (fetches w')
           \<and> resp = (case x of Inl r \<Rightarrow> r | Inr le \<Rightarrow> All_Failed le (modelHealth w'))"
proof -
  from POST_shape[OF assms(1)] assms(2)
  obtain body msgs x where b: "req = Some body" "valid_request body msgs"
      "model_loop up (availableModels e now (provider_of body) mh)
                (basePayload msgs body) (timeout_of body) None (w0 mh) = (x, w')"
      "resp = (case x of Inl r \<Rightarrow> r | Inr le \<Rightarrow> All_Failed le (modelHealth w'))"
    by auto
  from model_loop_run[OF b(3)] obtain fs where
    fs: "run_shape up (availableModels e now (provider_of body) mh)
                (basePayload msgs body) (timeout_of body) (w0 mh) x w' fs" ..
  then have "fs = fetches w'"
    by (simp add: run_shape_def)
  with fs b show ?thesis
    by blast
qed

lemma POST_fetch_payload:
  assumes "Fetch m p t \<in> set (trace (snd (POST e up now (Some body) mh)))"
  shows "max_tokens p = finalMaxTokens (get_prop body ''max_tokens'')"
proof -
  obtain resp w' where r: "POST e up now (Some body) mh = (resp, w')"
    by (cases "POST e up now (Some body) mh")
  with assms have mem: "Fetch m p t \<in> set (fetches w')"
    by (simp add: fetches_def)
  then have "fetches w' \<noteq> []"
    by auto
  from POST_run[OF r this] obtain msgs x where
    "run_shape up (availableModels e now (provider_of body) mh)
                (basePayload msgs body) (timeout_of body) (w0 mh) x w' (fetches w')"
    by auto
  from run_shape_payload[OF this mem] have "p = basePayload msgs body"
    by simp
  then show ?thesis
    by (simp add: basePayload_def)
qed

lemma final_response_not_503: "final_response m a fr = Some resp \<Longrightarrow> resp \<noteq> No_Healthy_Models"
  by (auto simp: final_response_def split: option.splits if_splits)

lemma POST_candidates:
  assumes "valid_request body msgs" and "availableModels e now (provider_of body) mh \<noteq> []"
  shows "fst (POST e up now (Some body) mh) \<noteq> No_Healthy_Models
     \<and> fetches (snd (POST e up now (Some body) mh)) \<noteq> []"
proof -
  let ?cs = "availableModels e now (provider_of body) mh"
  let ?p = "basePayload msgs body"
  let ?t = "timeout_of body"
  obtain x w' where x: "model_loop up ?cs ?p ?t None (w0 mh) = (x, w')"
    by (cases "model_loop up ?cs ?p ?t None (w0 mh)")
  from model_loop_run[OF x] obtain fs where fs: "run_shape up ?cs ?p ?t (w0 mh) x w' fs" ..
  have post: "POST e up now (Some body) mh = (case x of Inl r \<Rightarrow> r | Inr le \<Rightarrow> All_Failed le (modelHealth w'), w')"
    using POST_valid[OF assms(1), of e up now mh] assms(2) x by (simp split: sum.splits)
  have f: "fetches w' = fs"
    using run_shape_fetches[OF fs] by simp
  show ?thesis
  proof (cases x)
    case (Inl resp)
    with run_shape_Inl[of up ?cs ?p ?t "w0 mh" resp w' fs] fs
    obtain pre and mc :: model_config and rest a where
      "fs = plan pre ?p ?t @ replicate (Suc a) (Fetch (model mc) ?p ?t)"
      "final_response (model mc) a (up (length (fetches w') - 1) (model mc)) = Some resp"
      by blast
    with final_response_not_503 post Inl f show ?thesis
      by auto
  next
    case (Inr le)
    with fs have "fs = plan ?cs ?p ?t"
      by (simp add: run_shape_Inr)
    then have len: "length fs = sum_list (map maxRetries ?cs)"
      by (simp add: length_plan)
    have pos: "0 < sum_list (map maxRetries ?cs)"
      using assms(2) available_retries[of e now "provider_of body" mh]
      by (cases ?cs) auto
    from pos have "0 < length fs"
      by (simp only: len)
    then have "fs \<noteq> []"
      by auto
    with post Inr f show ?thesis by simp
  qed
qed

lemma run_shape_prefix:
  assumes "run_shape up mcs p t w x w' fs"
  shows "prefix fs (plan mcs p t)"
proof (cases x)
  case (Inr le)
  with assms have "fs = plan mcs p t"
    using run_shape_Inr[of up mcs p t w le w' fs] by simp
  then show ?thesis
    by simp
next
  case (Inl resp)
  with run_shape_Inl[of up mcs p t w resp w' fs] assms
  obtain pre mc rest a where s: "mcs = pre @ mc # rest"
      "fs = plan pre p t @ replicate (Suc a) (Fetch (model mc) p t)" "a < maxRetries mc"
    by blast
  have "replicate (maxRetries mc) (Fetch (model mc) p t)
      = replicate (Suc a) (Fetch (model mc) p t) @ replicate (maxRetries mc - Suc a) (Fetch (model mc) p t)"
    using s(3) by (simp add: replicate_add[symmetric] del: replicate_Suc)
  then have "plan mcs p t = fs @ replicate (maxRetries mc - Suc a) (Fetch (model mc) p t) @ plan rest p t"
    using s(1,2) by simp
  then show ?thesis
    by (simp add: prefix_def)
qed

lemma POST_prefix:
  assumes "valid_request body msgs"
  shows "prefix (fetches (snd (POST e up now (Some body) mh)))
           (plan (availableModels e now (provider_of body) mh) (basePayload msgs body) (timeout_of body))"
proof (cases "availableModels e now (provider_of body) mh = []")
  case True
  with POST_valid[OF assms, of e up now mh] show ?thesis
    by simp
next
  case False
  let ?cs = "availableModels e now (provider_of body) mh"
  let ?p = "basePayload msgs body"
  let ?t = "timeout_of body"
  obtain x w' where x: "model_loop up ?cs ?p ?t None (w0 mh) = (x, w')"
    by (cases "model_loop up ?cs ?p ?t None (w0 mh)")
  from model_loop_run[OF x] obtain fs where fs: "run_shape up ?cs ?p ?t (w0 mh) x w' fs" ..
  have "snd (POST e up now (Some body) mh) = w'"
    using POST_valid[OF assms, of e up now mh] False x by (simp split: sum.splits)
  moreover have "fetches w' = fs"
    using run_shape_fetches[OF fs] by simp
  ultimately show ?thesis
    using run_shape_prefix[OF fs] by simp
qed

lemma POST_first_fetch:
  assumes "valid_request body msgs" and "availableModels e now (provider_of body) mh = c # cs"
  shows "\<exists>rest. fetches (snd (POST e up now (Some body) mh))
           = Fetch (model c) (basePayload msgs body) (timeout_of body) # rest"
proof -
  let ?fs = "fetches (snd (POST e up now (Some body) mh))"
  let ?F = "Fetch (model c) (basePayload msgs body) (timeout_of body)"
  have ne: "?fs \<noteq> []"
    using POST_candidates[OF assms(1), of e now mh up] assms(2) by simp
  have "0 < maxRetries c"
    using available_retries[of e now "provider_of body" mh] assms(2) by auto
  then obtain k where "maxRetries c = Suc k"
    by (cases "maxRetries c") auto
  then have "plan (c # cs) (basePayload msgs body) (timeout_of body)
      = ?F # (replicate k ?F @ plan cs (basePayload msgs body) (timeout_of body))"
    by simp
  with POST_prefix[OF assms(1), of e up now mh] assms(2)
  have "prefix ?fs (?F # (replicate k ?F @ plan cs (basePayload msgs body) (timeout_of body)))"
    by simp
  with ne show ?thesis
    by (auto simp: prefix_Cons)
qed

lemma final_response_accepted:
  "final_response m a fr = Some resp \<Longrightarrow> accepts_status (http_status resp)"
  by (auto simp: final_response_def accepts_status_def split: option.splits if_splits)

text \<open>Every response the handler gives has a status the response constructor accepts.\<close>

lemma POST_status_accepted: "accepts_status (http_status (fst (POST e up now req mh)))"
proof -
  obtain resp w' where post: "POST e up now req mh = (resp, w')"
    by (cases "POST e up now req mh")
  from POST_shape[OF post] consider
      "resp \<in> {Server_Error, Bad_Request, No_Healthy_Models}"
    | body msgs x where "valid_request body msgs"
        "model_loop up (availableModels e now (provider_of body) mh)
                (basePayload msgs body) (timeout_of body) None (w0 mh) = (x, w')"
        "resp = (case x of Inl r \<Rightarrow> r | Inr le \<Rightarrow> All_Failed le (modelHealth w'))"
    by blast
  then have "accepts_status (http_status resp)"
  proof cases
    case 1
    then show ?thesis
      by (auto simp: accepts_status_def)
  next
    case 2
    from model_loop_run[OF 2(2)] obtain fs where
      fs: "run_shape up (availableModels e now (provider_of body) mh)
                (basePayload msgs body) (timeout_of body) (w0 mh) x w' fs" ..
    show ?thesis
    proof (cases x)
      case (Inr le)
      with 2(3) show ?thesis
        by (simp add: accepts_status_def)
    next
      case (Inl r)
      with run_shape_Inl[of up _ _ _ "w0 mh" r w' fs] fs
      obtain mc :: model_config and a where
        "final_response (model mc) a (up (length (fetches w') - 1) (model mc)) = Some r"
        by blast
      with final_response_accepted 2(3) Inl show ?thesis
        by simp
    qed
  qed
  with post show ?thesis
    by simp
qed

section \<open>Validation\<close>

text \<open>
  A body other than \<^verbatim>\<open>null\<close> whose \<^verbatim>\<open>messages\<close> is absent, is not an array, or is
  an empty array is answered with the validation error, status 400: the trace is empty,
  so no \<^verbatim>\<open>fetch\<close> and no pause happened, and the health map is the one the request
  found. Numbers, strings, booleans and arrays are such bodies: they have no
  \<^verbatim>\<open>messages\<close>.
\<close>

lemma non_null_body_rejected:
  assumes "body \<noteq> JNull"
    and "get_prop body ''messages'' = None
       \<or> (\<forall>xs. get_prop body ''messages'' \<noteq> Some (JArr xs))
       \<or> get_prop body ''messages'' = Some (JArr [])"
  shows "POST e up now (Some body) mh = (Bad_Request, \<lparr>modelHealth = mh, trace = []\<rparr>)
     \<and> http_status Bad_Request = 400"
proof -
  have nm: "\<nexists>msg rest. messages_of body = JArr (msg # rest)"
    using assms(2) by (cases "get_prop body ''messages''") (auto simp: messages_of_def)
  have "POST e up now (Some body) mh = (Bad_Request, \<lparr>modelHealth = mh, trace = []\<rparr>)"
    using assms(1) nm
    by (cases body; cases "messages_of body")
       (simp_all add: POST_def Let_def split: list.splits)
  then show ?thesis
    by simp
qed

text \<open>
  C9. The body \<^verbatim>\<open>null\<close> has no \<^verbatim>\<open>messages\<close> either, and the handler does not reach
  its validation: destructuring \<^verbatim>\<open>null\<close> throws, and the outer \<^verbatim>\<open>catch\<close> answers
  with the server error, status 500, not with the validation error, status 400. No
  \<^verbatim>\<open>fetch\<close> is made and the health map is unchanged there too.
\<close>

theorem null_body_server_error:
  "get_prop JNull ''messages'' = None
   \<and> POST e up now (Some JNull) mh = (Server_Error, \<lparr>modelHealth = mh, trace = []\<rparr>)
   \<and> fst (POST e up now (Some JNull) mh) \<noteq> Bad_Request
   \<and> http_status (fst (POST e up now (Some JNull) mh)) = 500
   \<and> http_status Bad_Request = 400"
  by (simp add: POST_def)

section \<open>Token limit\<close>

lemma finalMaxTokens_range: "\<exists>r. finalMaxTokens v = Num r \<and> 1 \<le> r \<and> r \<le> MAX_TOKENS_HARD_CAP"
proof (cases "\<exists>n. v = Some (JNum n)")
  case True
  then obtain n where "v = Some (JNum n)" ..
  then show ?thesis
    by (cases n) (simp_all add: finalMaxTokens_def MAX_TOKENS_HARD_CAP_def)
next
  case False
  then have "(case v of Some (JNum n) \<Rightarrow> n | _ \<Rightarrow> Num MAX_TOKENS_DEFAULT) = Num MAX_TOKENS_DEFAULT"
    by (auto split: option.splits json.splits)
  then show ?thesis
    by (simp add: finalMaxTokens_def MAX_TOKENS_HARD_CAP_def MAX_TOKENS_DEFAULT_def)
qed

lemma finalMaxTokens_default:
  assumes "\<forall>n. v \<noteq> Some (JNum n)"
  shows "finalMaxTokens v = Num MAX_TOKENS_DEFAULT"
proof -
  from assms have "(case v of Some (JNum n) \<Rightarrow> n | _ \<Rightarrow> Num MAX_TOKENS_DEFAULT) = Num MAX_TOKENS_DEFAULT"
    by (auto split: option.splits json.splits)
  then show ?thesis
    by (simp add: finalMaxTokens_def MAX_TOKENS_HARD_CAP_def MAX_TOKENS_DEFAULT_def)
qed

text \<open>
  C4. For a numeric \<^verbatim>\<open>max_tokens\<close> the limit is \<open>min (max 1 x) 2000\<close> (an infinite
  one gives the nearer bound); for every value, numeric or not or absent, it is a number
  from 1 to the hard cap: 0 and negative numbers give 1, numbers at or above the cap
  give the cap (5000 gives 2000), anything that is not a number gives the default 1200.
  Every \<^verbatim>\<open>fetch\<close> of a request sends that limit, and a request that passes the
  validation and has a candidate makes one: its first call goes to the first candidate
  with the messages of the body and that limit.
\<close>

theorem max_tokens_clamped:
  "finalMaxTokens (Some (JNum (Num x))) = Num (min (max 1 x) MAX_TOKENS_HARD_CAP)
   \<and> finalMaxTokens (Some (JNum Infinity)) = Num MAX_TOKENS_HARD_CAP
   \<and> finalMaxTokens (Some (JNum NegInfinity)) = Num 1
   \<and> (\<exists>r. finalMaxTokens v = Num r \<and> 1 \<le> r \<and> r \<le> MAX_TOKENS_HARD_CAP)
   \<and> (x \<le> 0 \<longrightarrow> finalMaxTokens (Some (JNum (Num x))) = Num 1)
   \<and> (MAX_TOKENS_HARD_CAP \<le> x \<longrightarrow> finalMaxTokens (Some (JNum (Num x))) = Num MAX_TOKENS_HARD_CAP)
   \<and> MAX_TOKENS_HARD_CAP = 2000
   \<and> finalMaxTokens (Some (JNum (Num 5000))) = Num 2000
   \<and> finalMaxTokens (Some (JNum (Num 0))) = Num 1
   \<and> ((\<forall>n. v \<noteq> Some (JNum n)) \<longrightarrow> finalMaxTokens v = Num MAX_TOKENS_DEFAULT)
   \<and> (\<forall>m p t. Fetch m p t \<in> set (trace (snd (POST e up now (Some body) mh)))
          \<longrightarrow> max_tokens p = finalMaxTokens (get_prop body ''max_tokens''))
   \<and> (valid_request body msgs \<and> availableModels e now (provider_of body) mh = c # cs
        \<longrightarrow> (\<exists>p rest. fetches (snd (POST e up now (Some body) mh))
                        = Fetch (model c) p (timeout_of body) # rest
                  \<and> messages p = msgs
                  \<and> max_tokens p = finalMaxTokens (get_prop body ''max_tokens'')))"
proof -
  have a: "finalMaxTokens (Some (JNum (Num y))) = Num (min (max 1 y) MAX_TOKENS_HARD_CAP)" for y
    by (simp add: finalMaxTokens_def)
  have b: "finalMaxTokens (Some (JNum Infinity)) = Num MAX_TOKENS_HARD_CAP"
    "finalMaxTokens (Some (JNum NegInfinity)) = Num 1"
    by (simp_all add: finalMaxTokens_def MAX_TOKENS_HARD_CAP_def)
  have c: "MAX_TOKENS_HARD_CAP = 2000"
    by (simp add: MAX_TOKENS_HARD_CAP_def)
  have d: "\<exists>p rest. fetches (snd (POST e up now (Some body) mh))
                        = Fetch (model c) p (timeout_of body) # rest
                  \<and> messages p = msgs
                  \<and> max_tokens p = finalMaxTokens (get_prop body ''max_tokens'')"
    if "valid_request body msgs" "availableModels e now (provider_of body) mh = c # cs"
    using POST_first_fetch[OF that, of up] by (auto simp: basePayload_def)
  show ?thesis
    using finalMaxTokens_range[of v] finalMaxTokens_default[of v]
      POST_fetch_payload[of _ _ _ e up now body mh] d
    by (simp add: a b c)
qed

theorem max_tokens_clamped_witness:
  "finalMaxTokens (Some (JNum (Num (-3)))) = Num 1
   \<and> finalMaxTokens (Some (JNum (Num 5000))) = Num 2000
   \<and> finalMaxTokens (Some (JNum (Num 750))) = Num 750
   \<and> finalMaxTokens (Some (JStr ''many'')) = Num 1200
   \<and> finalMaxTokens None = Num 1200
   \<and> valid_request (request_tokens (JNum (Num 5000)))
        [JObj [(''role'', JStr ''user''), (''content'', JStr ''hi'')]]
   \<and> (\<exists>p rest. fetches (snd (POST no_env unreachable 0
                   (Some (request_tokens (JNum (Num 5000)))) Map.empty))
                 = Fetch ''x-ai/grok-4-fast:free'' p (JNum (Num 30000)) # rest
           \<and> max_tokens p = Num 2000)"
proof -
  let ?msgs = "[JObj [(''role'', JStr ''user''), (''content'', JStr ''hi'')]]"
  let ?body = "request_tokens (JNum (Num 5000))"
  let ?c = "\<lparr>model = ''x-ai/grok-4-fast:free'', priority = 1, maxRetries = 2\<rparr>"
  let ?cs = "[\<lparr>model = ''deepseek/deepseek-chat'', priority = 2, maxRetries = 3\<rparr>,
      \<lparr>model = ''meta-llama/llama-3.1-8b-instruct:free'', priority = 3, maxRetries = 1\<rparr>]"
  note a = max_tokens_clamped[of "-3" "Some (JStr ''many'')" no_env unreachable 0 ?body Map.empty
      ?msgs ?c ?cs]
  note b = max_tokens_clamped[of 750 None no_env unreachable 0 ?body Map.empty ?msgs ?c ?cs]
  have v: "valid_request ?body ?msgs"
    by (simp add: valid_request_def request_tokens_def messages_of_def)
  have cs: "availableModels no_env 0 (provider_of ?body) Map.empty = ?c # ?cs"
    by (simp add: provider_of_def request_tokens_def availableModels_def getHealthyModels_def
        healthy_def MODEL_CONFIGS_def no_env_def)
  have 1: "finalMaxTokens (Some (JNum (Num (-3)))) = Num 1"
    using a by simp
  have 2: "finalMaxTokens (Some (JNum (Num 5000))) = Num 2000"
    using a by blast
  have 3: "finalMaxTokens (Some (JNum (Num 750))) = Num (min (max 1 750) MAX_TOKENS_HARD_CAP)"
    using b by blast
  have 4: "finalMaxTokens (Some (JStr ''many'')) = Num MAX_TOKENS_DEFAULT"
    using a by simp
  have 5: "finalMaxTokens None = Num MAX_TOKENS_DEFAULT"
    using b by simp
  have "\<exists>p rest. fetches (snd (POST no_env unreachable 0 (Some ?body) Map.empty))
                        = Fetch (model ?c) p (timeout_of ?body) # rest
                  \<and> messages p = ?msgs
                  \<and> max_tokens p = finalMaxTokens (get_prop ?body ''max_tokens'')"
    using a v cs by blast
  then have 6: "\<exists>p rest. fetches (snd (POST no_env unreachable 0 (Some ?body) Map.empty))
                 = Fetch ''x-ai/grok-4-fast:free'' p (JNum (Num 30000)) # rest
           \<and> max_tokens p = Num 2000"
    using 2 by (auto simp: request_tokens_def timeout_of_def)
  show ?thesis
    using 1 2 3 4 5 6 v by (simp add: MAX_TOKENS_DEFAULT_def MAX_TOKENS_HARD_CAP_def)
qed

section \<open>Health filter\<close>

lemma healthy_iff:
  "healthy now mh c \<longleftrightarrow>
     \<not> (\<exists>h. mh (model c) = Some h \<and> failures h > 3 \<and> now - lastSuccess h > 300000)"
  by (simp add: healthy_def Let_def split: option.splits)

lemma set_getHealthyModels:
  "set (getHealthyModels e now mh) = {c \<in> set (MODEL_CONFIGS e). healthy now mh c}"
  by (auto simp: getHealthyModels_def)

lemma available_auto: "availableModels e now (JStr ''auto'') mh = getHealthyModels e now mh"
  by (simp add: availableModels_def)

text \<open>
  C8. A model is filtered out exactly when its record has more than 3 failures and a last
  success more than 300000 ms before the clock; a model without a record is healthy. The
  provider "auto" takes the healthy models: one with 4 failures and a last success 10
  minutes old is left out, the same with a last success 1 minute old is kept.
\<close>

theorem unhealthy_iff:
  "(healthy now mh c \<longleftrightarrow>
      \<not> (\<exists>h. mh (model c) = Some h \<and> failures h > 3 \<and> now - lastSuccess h > 300000))
   \<and> (mh (model c) = None \<longrightarrow> healthy now mh c)
   \<and> set (getHealthyModels e now mh) = {c \<in> set (MODEL_CONFIGS e). healthy now mh c}
   \<and> availableModels e now (JStr ''auto'') mh = getHealthyModels e now mh
   \<and> (c \<in> set (MODEL_CONFIGS e) \<and> mh (model c) = Some h \<and> failures h = 4
        \<and> now - lastSuccess h = 600000
        \<longrightarrow> c \<notin> set (availableModels e now (JStr ''auto'') mh))
   \<and> (c \<in> set (MODEL_CONFIGS e) \<and> mh (model c) = Some h \<and> failures h = 4
        \<and> now - lastSuccess h = 60000
        \<longrightarrow> c \<in> set (availableModels e now (JStr ''auto'') mh))"
  by (simp add: healthy_iff[of now mh c] set_getHealthyModels available_auto)


theorem unhealthy_iff_witness:
  "\<lparr>model = ''x-ai/grok-4-fast:free'', priority = 1, maxRetries = 2\<rparr>
     \<notin> set (availableModels \<lparr>LLM_PRIMARY_MODEL = None, LLM_SECONDARY_MODEL = None\<rparr> 700000 (JStr ''auto'')
          [''x-ai/grok-4-fast:free'' \<mapsto> \<lparr>lastSuccess = 100000, failures = 4, avgResponseTime = 0\<rparr>])
   \<and> \<lparr>model = ''x-ai/grok-4-fast:free'', priority = 1, maxRetries = 2\<rparr>
     \<in> set (availableModels \<lparr>LLM_PRIMARY_MODEL = None, LLM_SECONDARY_MODEL = None\<rparr> 160000 (JStr ''auto'')
          [''x-ai/grok-4-fast:free'' \<mapsto> \<lparr>lastSuccess = 100000, failures = 4, avgResponseTime = 0\<rparr>])"
  using unhealthy_iff[of 700000
      "[''x-ai/grok-4-fast:free'' \<mapsto> \<lparr>lastSuccess = 100000, failures = 4, avgResponseTime = 0\<rparr>]"
      "\<lparr>model = ''x-ai/grok-4-fast:free'', priority = 1, maxRetries = 2\<rparr>"
      "\<lparr>LLM_PRIMARY_MODEL = None, LLM_SECONDARY_MODEL = None\<rparr>"
      "\<lparr>lastSuccess = 100000, failures = 4, avgResponseTime = 0\<rparr>"]
    unhealthy_iff[of 160000
      "[''x-ai/grok-4-fast:free'' \<mapsto> \<lparr>lastSuccess = 100000, failures = 4, avgResponseTime = 0\<rparr>]"
      "\<lparr>model = ''x-ai/grok-4-fast:free'', priority = 1, maxRetries = 2\<rparr>"
      "\<lparr>LLM_PRIMARY_MODEL = None, LLM_SECONDARY_MODEL = None\<rparr>"
      "\<lparr>lastSuccess = 100000, failures = 4, avgResponseTime = 0\<rparr>"]
  by (simp add: MODEL_CONFIGS_def)

section \<open>Provider hint\<close>

lemma unknown_hint:
  assumes "provider \<noteq> JStr ''auto''" "provider \<noteq> JStr ''grok''" "provider \<noteq> JStr ''deepseek''"
  shows "availableModels e now provider mh = MODEL_CONFIGS e"
  using assms by (simp add: availableModels_def)

lemma POST_no_candidates:
  assumes "valid_request body msgs" and "availableModels e now (provider_of body) mh = []"
  shows "POST e up now (Some body) mh = (No_Healthy_Models, \<lparr>modelHealth = mh, trace = []\<rparr>)"
  using POST_valid[OF assms(1), of e up now mh] assms(2) by (simp add: w0_def)

lemma valid_request_for:
  "valid_request (request_for pr) [JObj [(''role'', JStr ''user''), (''content'', JStr ''hi'')]]"
  by (simp add: valid_request_def request_for_def messages_of_def)

lemma provider_request_for [simp]: "provider_of (request_for pr) = pr"
  by (simp add: provider_of_def request_for_def)

text \<open>
  C3, as the code has it. The filter keeps every model for a provider that is neither
  "auto" nor "grok" nor "deepseek" (its last branch returns \<^verbatim>\<open>true\<close>): the candidates
  are the three models of the registry, whatever their health, so such a request calls
  the first of them and is not answered with "No healthy models available". A
  request whose candidate list is empty is answered with it, status 503, before any
  \<^verbatim>\<open>fetch\<close>.
\<close>

theorem unknown_hint_keeps_registry:
  "(provider \<noteq> JStr ''auto'' \<and> provider \<noteq> JStr ''grok'' \<and> provider \<noteq> JStr ''deepseek''
      \<longrightarrow> availableModels e now provider mh = MODEL_CONFIGS e
        \<and> length (availableModels e now provider mh) = 3)
   \<and> (valid_request body msgs \<and> provider_of body \<noteq> JStr ''auto''
        \<and> provider_of body \<noteq> JStr ''grok'' \<and> provider_of body \<noteq> JStr ''deepseek''
      \<longrightarrow> fst (POST e up now (Some body) mh) \<noteq> No_Healthy_Models
        \<and> fetches (snd (POST e up now (Some body) mh)) \<noteq> []
        \<and> (\<exists>rest. fetches (snd (POST e up now (Some body) mh))
              = Fetch (or_default (LLM_PRIMARY_MODEL e) ''x-ai/grok-4-fast:free'')
                  (basePayload msgs body) (timeout_of body) # rest))
   \<and> (valid_request body msgs \<and> availableModels e now (provider_of body) mh = []
      \<longrightarrow> POST e up now (Some body) mh = (No_Healthy_Models, \<lparr>modelHealth = mh, trace = []\<rparr>))"
proof -
  have reg: "MODEL_CONFIGS e \<noteq> []" "length (MODEL_CONFIGS e) = 3"
    by (simp_all add: MODEL_CONFIGS_def)
  have first: "\<exists>rest. fetches (snd (POST e up now (Some body) mh))
              = Fetch (or_default (LLM_PRIMARY_MODEL e) ''x-ai/grok-4-fast:free'')
                  (basePayload msgs body) (timeout_of body) # rest"
    if v: "valid_request body msgs" and u: "provider_of body \<noteq> JStr ''auto''"
      "provider_of body \<noteq> JStr ''grok''" "provider_of body \<noteq> JStr ''deepseek''"
  proof -
    have "availableModels e now (provider_of body) mh
        = \<lparr>model = or_default (LLM_PRIMARY_MODEL e) ''x-ai/grok-4-fast:free'',
            priority = 1, maxRetries = 2\<rparr> # tl (MODEL_CONFIGS e)"
      using unknown_hint[OF u, of e now mh] by (simp add: MODEL_CONFIGS_def)
    from POST_first_fetch[OF v this, of up] show ?thesis
      by simp
  qed
  show ?thesis
    using unknown_hint[of provider e now mh] unknown_hint[of "provider_of body" e now mh]
      POST_candidates[of body msgs e now mh up] POST_no_candidates[of body msgs e now mh up] reg
      first
    by auto
qed


theorem unknown_hint_keeps_registry_witness:
  "availableModels no_env 0 (JStr ''openai'') Map.empty = MODEL_CONFIGS no_env
   \<and> fst (POST no_env (always 429 None) 0 (Some (request_for (JStr ''openai''))) Map.empty)
       \<noteq> No_Healthy_Models
   \<and> POST \<lparr>LLM_PRIMARY_MODEL = Some ''openai/gpt-4o'', LLM_SECONDARY_MODEL = None\<rparr>
        (always 429 None) 0 (Some (request_for (JStr ''grok''))) Map.empty
      = (No_Healthy_Models, \<lparr>modelHealth = Map.empty, trace = []\<rparr>)"
proof -
  let ?msgs = "[JObj [(''role'', JStr ''user''), (''content'', JStr ''hi'')]]"
  let ?e1 = "\<lparr>LLM_PRIMARY_MODEL = Some ''openai/gpt-4o'', LLM_SECONDARY_MODEL = None\<rparr>"
  have none: "availableModels ?e1 0 (JStr ''grok'') Map.empty = []"
    by (simp add: availableModels_def MODEL_CONFIGS_def)
  from unknown_hint_keeps_registry[of "JStr ''openai''" no_env 0 Map.empty
      "request_for (JStr ''openai'')" ?msgs "always 429 None"]
    unknown_hint_keeps_registry[of "JStr ''grok''" ?e1 0 Map.empty
      "request_for (JStr ''grok'')" ?msgs "always 429 None"]
    valid_request_for none
  show ?thesis
    by simp
qed

text \<open>
  The claim as the specification states it fails for the provider "openai": the three
  models are candidates, the first is called and its completion is returned.
\<close>

theorem unknown_hint_counterexample:
  "map model (availableModels no_env 0 (JStr ''openai'') Map.empty)
     = [''x-ai/grok-4-fast:free'', ''deepseek/deepseek-chat'', ''meta-llama/llama-3.1-8b-instruct:free'']
   \<and> fst (POST no_env (always 200 (Some (JObj []))) 0 (Some (request_for (JStr ''openai''))) Map.empty)
       \<noteq> No_Healthy_Models
   \<and> http_status (fst (POST no_env (always 200 (Some (JObj []))) 0
         (Some (request_for (JStr ''openai''))) Map.empty)) = 200
   \<and> length (fetches (snd (POST no_env (always 200 (Some (JObj []))) 0
         (Some (request_for (JStr ''openai''))) Map.empty))) = 1"
proof -
  let ?up = "always 200 (Some (JObj []))"
  let ?body = "request_for (JStr ''openai'')"
  let ?msgs = "[JObj [(''role'', JStr ''user''), (''content'', JStr ''hi'')]]"
  have cs: "availableModels no_env 0 (JStr ''openai'') Map.empty = MODEL_CONFIGS no_env"
    by (simp add: unknown_hint)
  have fin: "final_response m 0 (?up n m) = Some (Completion (completion_object m 0
      \<lparr>ok = True, status = 200, data = Some (JObj []), raw = ''body'', responseTime = 10\<rparr>))" for n m
    by (simp add: final_response_def reply_result_def always_def)
  have loop: "model_loop ?up (MODEL_CONFIGS no_env) (basePayload ?msgs ?body) (timeout_of ?body) None (w0 Map.empty)
     = (Inl (Completion (completion_object ''x-ai/grok-4-fast:free'' 0
      \<lparr>ok = True, status = 200, data = Some (JObj []), raw = ''body'', responseTime = 10\<rparr>)),
        after_call ?up ''x-ai/grok-4-fast:free'' (basePayload ?msgs ?body) (timeout_of ?body) (w0 Map.empty))"
    by (simp add: MODEL_CONFIGS_def no_env_def attempt_loop_final fin)
  have post: "POST no_env ?up 0 (Some ?body) Map.empty
     = (Completion (completion_object ''x-ai/grok-4-fast:free'' 0
      \<lparr>ok = True, status = 200, data = Some (JObj []), raw = ''body'', responseTime = 10\<rparr>),
        after_call ?up ''x-ai/grok-4-fast:free'' (basePayload ?msgs ?body) (timeout_of ?body) (w0 Map.empty))"
    using POST_valid[of ?body ?msgs no_env ?up 0 Map.empty] valid_request_for cs loop
    by (simp add: MODEL_CONFIGS_def)
  show ?thesis
    by (simp add: post cs) (simp add: MODEL_CONFIGS_def no_env_def)
qed

section \<open>Exhaustion\<close>

lemma available_auto_fresh:
  "availableModels no_env now (JStr ''auto'') Map.empty = MODEL_CONFIGS no_env"
  by (simp add: availableModels_def getHealthyModels_def healthy_def MODEL_CONFIGS_def)

lemma classify_busy [simp]: "classify (always 429 None n m) = RETRYABLE"
  by (simp add: classify_def reply_result_def always_def shouldFallback_def FALLBACK_STATUS_def)

lemma goes_on_busy [simp]: "goes_on (always 429 None n m)"
  by (simp add: retryable_goes_on)

lemma POST_always:
  assumes "\<forall>n m. goes_on (always st parsed n m)"
  shows "\<exists>w'. POST no_env (always st parsed) 0 (Some (request_for (JStr ''auto''))) Map.empty
      = (All_Failed
           (Some (error_of ''meta-llama/llama-3.1-8b-instruct:free'' 0
                    (Responded st ''body'' parsed 10 1000)))
           (modelHealth w'), w')
    \<and> length (fetches w') = 6"
proof -
  let ?body = "request_for (JStr ''auto'')"
  have cs: "availableModels no_env 0 (provider_of ?body) Map.empty = MODEL_CONFIGS no_env"
    by (simp add: available_auto_fresh)
  have ne: "availableModels no_env 0 (provider_of ?body) Map.empty \<noteq> []"
    by (simp add: available_auto_fresh MODEL_CONFIGS_def)
  have retry: "\<forall>n. \<forall>mc \<in> set (availableModels no_env 0 (provider_of ?body) Map.empty).
           goes_on (always st parsed n (model mc))"
    using assms by simp
  from POST_exhaust[OF valid_request_for ne retry]
  show ?thesis
    unfolding cs
    by (simp add: MODEL_CONFIGS_def no_env_def) (simp add: always_def)
qed

lemma POST_busy:
  "\<exists>w'. POST no_env (always 429 None) 0 (Some (request_for (JStr ''auto''))) Map.empty
      = (All_Failed (Some (Http_Error ''meta-llama/llama-3.1-8b-instruct:free'' 429 (JStr ''body'') 1))
           (modelHealth w'), w')
    \<and> length (fetches w') = 6"
  using POST_always[of 429 None] by (simp add: error_of_def FALLBACK_STATUS_def)

text \<open>
  C1, as the code has it. When every reply to every candidate lets the loops go on (a
  status or code that asks for fallback, or an exception), the request is answered
  with "All providers failed after retries", status 502. The number of calls made is
  the sum of the candidates' \<open>maxRetries\<close>. The response carries one attempt outcome,
  \<^verbatim>\<open>lastError\<close>: that of the last attempt of the last candidate (each assignment
  overwrites the one before), beside the health map.
\<close>

theorem exhaustion_reports_last_error:
  assumes "valid_request body msgs"
    and "availableModels e now (provider_of body) mh \<noteq> []"
    and "\<forall>n. \<forall>mc \<in> set (availableModels e now (provider_of body) mh).
           classify (up n (model mc)) = RETRYABLE"
  shows "\<exists>le w'. POST e up now (Some body) mh = (All_Failed (Some le) (modelHealth w'), w')
      \<and> http_status (All_Failed (Some le) (modelHealth w')) = 502
      \<and> reported_attempts (All_Failed (Some le) (modelHealth w')) = [le]
      \<and> le = error_of (model (last (availableModels e now (provider_of body) mh)))
                (maxRetries (last (availableModels e now (provider_of body) mh)) - 1)
                (up (sum_list (map maxRetries (availableModels e now (provider_of body) mh)) - 1)
                    (model (last (availableModels e now (provider_of body) mh))))
      \<and> length (fetches w')
          = sum_list (map maxRetries (availableModels e now (provider_of body) mh))"
proof -
  have "\<forall>n. \<forall>mc \<in> set (availableModels e now (provider_of body) mh). goes_on (up n (model mc))"
    using assms(3) by (simp add: retryable_goes_on)
  from POST_exhaust[OF assms(1,2) this] show ?thesis
    by auto
qed

theorem exhaustion_reports_last_error_witness:
  "valid_request (request_for (JStr ''auto'')) [JObj [(''role'', JStr ''user''), (''content'', JStr ''hi'')]]
   \<and> availableModels no_env 0 (provider_of (request_for (JStr ''auto''))) Map.empty \<noteq> []
   \<and> (\<forall>n m. classify (always 429 None n m) = RETRYABLE)
   \<and> http_status (fst (POST no_env (always 429 None) 0 (Some (request_for (JStr ''auto''))) Map.empty)) = 502
   \<and> length (fetches (snd (POST no_env (always 429 None) 0 (Some (request_for (JStr ''auto''))) Map.empty))) = 6"
proof -
  let ?body = "request_for (JStr ''auto'')"
  have ne: "availableModels no_env 0 (provider_of ?body) Map.empty \<noteq> []"
    by (simp add: available_auto_fresh MODEL_CONFIGS_def)
  have retry: "\<forall>n. \<forall>mc \<in> set (availableModels no_env 0 (provider_of ?body) Map.empty).
           classify (always 429 None n (model mc)) = RETRYABLE"
    by simp
  from exhaustion_reports_last_error[OF valid_request_for ne retry]
  obtain le w' where
    "POST no_env (always 429 None) 0 (Some ?body) Map.empty = (All_Failed (Some le) (modelHealth w'), w')"
    "length (fetches w') = sum_list (map maxRetries (availableModels no_env 0 (provider_of ?body) Map.empty))"
    by blast
  then show ?thesis
    using valid_request_for ne by (simp add: available_auto_fresh MODEL_CONFIGS_def)
qed

text \<open>
  The claim as the specification states it fails for the registry with every reply a
  429: six attempts are made, and the response carries the outcome of the sixth only.
\<close>

theorem exhaustion_counterexample:
  "reported_attempts (fst (POST no_env (always 429 None) 0 (Some (request_for (JStr ''auto''))) Map.empty))
     = [Http_Error ''meta-llama/llama-3.1-8b-instruct:free'' 429 (JStr ''body'') 1]
   \<and> length (fetches (snd (POST no_env (always 429 None) 0 (Some (request_for (JStr ''auto''))) Map.empty))) = 6
   \<and> sum_list (map maxRetries (availableModels no_env 0 (JStr ''auto'') Map.empty)) = 6
   \<and> length (reported_attempts
        (fst (POST no_env (always 429 None) 0 (Some (request_for (JStr ''auto''))) Map.empty)))
      \<noteq> sum_list (map maxRetries (availableModels no_env 0 (JStr ''auto'') Map.empty))"
proof -
  from POST_busy obtain w' where
    "POST no_env (always 429 None) 0 (Some (request_for (JStr ''auto''))) Map.empty
      = (All_Failed (Some (Http_Error ''meta-llama/llama-3.1-8b-instruct:free'' 429 (JStr ''body'') 1))
           (modelHealth w'), w')" "length (fetches w') = 6"
    by blast
  then show ?thesis
    by (simp add: available_auto_fresh MODEL_CONFIGS_def)
qed

section \<open>Retry budget and backoff\<close>

lemma delay_retryable:
  assumes "classify (Responded st b d el tm) = RETRYABLE"
  shows "delay k (Responded st b d el tm) = 2 ^ k * 1000"
  using assms
  by (auto simp: delay_def classify_def reply_result_def shouldFallback_def split: if_splits)

lemma schedule_http:
  assumes "\<forall>n. classify (up n (model mc)) = RETRYABLE"
    and "\<forall>n. \<exists>st b d el tm. up n (model mc) = Responded st b d el tm"
  shows "schedule up mc p t n0 0 =
     concat (map (\<lambda>k. Fetch (model mc) p t #
                       (if k < maxRetries mc - 1 then [Sleep (2 ^ k * 1000)] else []))
               [0..<maxRetries mc])"
proof -
  have "delay k (up n (model mc)) = 2 ^ k * 1000" for k n
    using assms(1)[rule_format, of n] assms(2)[rule_format, of n] delay_retryable
    by (metis (no_types))
  then show ?thesis
    by (simp add: schedule_def cong: if_cong)
qed

lemma schedule_thrown:
  assumes "\<forall>n. \<exists>msg. up n (model mc) = Threw msg"
  shows "schedule up mc p t n0 0 =
     concat (map (\<lambda>k. Fetch (model mc) p t #
                       (if k < maxRetries mc - 1 then [Sleep 1000] else []))
               [0..<maxRetries mc])"
proof -
  have "delay k (up n (model mc)) = 1000" for k n
    using assms[rule_format, of n] by (auto simp: delay_def)
  then show ?thesis
    by (simp add: schedule_def cong: if_cong)
qed

lemma classify_unreachable [simp]: "classify (unreachable n m) = RETRYABLE"
  by (simp add: classify_def reply_result_def unreachable_def)

text \<open>
  C5. A model whose every reply lets the loop go on is called exactly \<open>maxRetries\<close>
  times. Between two consecutive attempts the handler pauses, for \<open>2 ^ attempt * 1000\<close>
  ms after a response (1000, 2000, 4000, ...) and for 1000 ms after an exception; after
  the last attempt it does not pause, and the outer loop goes on with the next model.
\<close>

theorem retry_budget_and_backoff:
  assumes "\<forall>n. classify (up n (model mc)) = RETRYABLE"
  shows "\<exists>le' w'. attempt_loop up mc p t 0 le w = (Inr le', w')
      \<and> trace w' = trace w @ schedule up mc p t (length (fetches w)) 0
      \<and> length (fetches w') = length (fetches w) + maxRetries mc
      \<and> model_loop up (mc # rest) p t le w = model_loop up rest p t le' w'
      \<and> ((\<forall>n. \<exists>st b d el tm. up n (model mc) = Responded st b d el tm) \<longrightarrow>
           schedule up mc p t (length (fetches w)) 0 =
             concat (map (\<lambda>k. Fetch (model mc) p t #
                               (if k < maxRetries mc - 1 then [Sleep (2 ^ k * 1000)] else []))
                       [0..<maxRetries mc]))
      \<and> ((\<forall>n. \<exists>msg. up n (model mc) = Threw msg) \<longrightarrow>
           schedule up mc p t (length (fetches w)) 0 =
             concat (map (\<lambda>k. Fetch (model mc) p t #
                               (if k < maxRetries mc - 1 then [Sleep 1000] else []))
                       [0..<maxRetries mc]))"
proof -
  have "\<forall>n. goes_on (up n (model mc))"
    using assms by (simp add: retryable_goes_on)
  with attempt_loop_exhaust[of up mc p t 0 le w]
  obtain le' w' where r: "attempt_loop up mc p t 0 le w = (Inr le', w')"
      "trace w' = trace w @ schedule up mc p t (length (fetches w)) 0"
    by blast
  have len: "length (fetches w') = length (fetches w) + maxRetries mc"
    using r(2) by (simp add: fetches_def fetches_schedule)
  have nxt: "model_loop up (mc # rest) p t le w = model_loop up rest p t le' w'"
    using r(1) by simp
  show ?thesis
    using r len nxt schedule_http[of up mc p t "length (fetches w)"] assms
      schedule_thrown[of up mc p t "length (fetches w)"]
    by blast
qed


theorem retry_budget_and_backoff_witness:
  "(\<forall>n. classify (always 429 None n ''deepseek/deepseek-chat'') = RETRYABLE)
   \<and> trace (snd (attempt_loop (always 429 None)
        \<lparr>model = ''deepseek/deepseek-chat'', priority = 2, maxRetries = 3\<rparr>
        ping (JNum (Num 30000)) 0 None (w0 Map.empty)))
     = [Fetch ''deepseek/deepseek-chat'' ping (JNum (Num 30000)), Sleep 1000,
        Fetch ''deepseek/deepseek-chat'' ping (JNum (Num 30000)), Sleep 2000,
        Fetch ''deepseek/deepseek-chat'' ping (JNum (Num 30000))]
   \<and> trace (snd (attempt_loop unreachable
        \<lparr>model = ''deepseek/deepseek-chat'', priority = 2, maxRetries = 3\<rparr>
        ping (JNum (Num 30000)) 0 None (w0 Map.empty)))
     = [Fetch ''deepseek/deepseek-chat'' ping (JNum (Num 30000)), Sleep 1000,
        Fetch ''deepseek/deepseek-chat'' ping (JNum (Num 30000)), Sleep 1000,
        Fetch ''deepseek/deepseek-chat'' ping (JNum (Num 30000))]"
proof -
  let ?mc = "\<lparr>model = ''deepseek/deepseek-chat'', priority = 2, maxRetries = 3\<rparr>"
  let ?t = "JNum (Num 30000)"
  have three: "[0..<3] = [0, 1, 2]"
    by (simp add: upt_rec)
  have a: "\<forall>n. classify (always 429 None n (model ?mc)) = RETRYABLE"
    by simp
  have b: "\<forall>n. classify (unreachable n (model ?mc)) = RETRYABLE"
    by simp
  from retry_budget_and_backoff[of "always 429 None" ?mc ping ?t None "w0 Map.empty" "[]"] a
  obtain le1 w1 where 1: "attempt_loop (always 429 None) ?mc ping ?t 0 None (w0 Map.empty) = (Inr le1, w1)"
      "trace w1 = trace (w0 Map.empty) @ schedule (always 429 None) ?mc ping ?t (length (fetches (w0 Map.empty))) 0"
    by blast
  from retry_budget_and_backoff[of unreachable ?mc ping ?t None "w0 Map.empty" "[]"] b
  obtain le2 w2 where 2: "attempt_loop unreachable ?mc ping ?t 0 None (w0 Map.empty) = (Inr le2, w2)"
      "trace w2 = trace (w0 Map.empty) @ schedule unreachable ?mc ping ?t (length (fetches (w0 Map.empty))) 0"
    by blast
  have t1: "trace w1 =
      [Fetch ''deepseek/deepseek-chat'' ping ?t, Sleep 1000,
       Fetch ''deepseek/deepseek-chat'' ping ?t, Sleep 2000,
       Fetch ''deepseek/deepseek-chat'' ping ?t]"
    using 1(2) by (simp add: schedule_def three delay_def always_def w0_def FALLBACK_STATUS_def)
  have t2: "trace w2 =
      [Fetch ''deepseek/deepseek-chat'' ping ?t, Sleep 1000,
       Fetch ''deepseek/deepseek-chat'' ping ?t, Sleep 1000,
       Fetch ''deepseek/deepseek-chat'' ping ?t]"
    using 2(2) by (simp add: schedule_def three delay_def unreachable_def w0_def)
  show ?thesis
    using 1(1) 2(1) t1 t2 by simp
qed

section \<open>Replies that end the request\<close>

lemma POST_stops:
  assumes post: "POST e up now req mh = (resp, w')"
    and j: "j < length (fetches w')" "fetches w' ! j = Fetch m p t"
    and stop: "\<not> goes_on (up j m)"
  shows "\<exists>body msgs pre mc rest a. req = Some body \<and> valid_request body msgs
      \<and> p = basePayload msgs body \<and> t = timeout_of body
      \<and> availableModels e now (provider_of body) mh = pre @ mc # rest
      \<and> model mc = m \<and> a < maxRetries mc
      \<and> fetches w' = plan pre p t @ replicate (Suc a) (Fetch m p t)
      \<and> j = length (plan pre p t) + a
      \<and> last (trace w') = Fetch m p t
      \<and> final_response m a (up j m) = Some resp"
proof -
  from j(1) have ne: "fetches w' \<noteq> []"
    by auto
  from POST_run[OF post ne] obtain body msgs x where b: "req = Some body" "valid_request body msgs"
      "run_shape up (availableModels e now (provider_of body) mh)
                (basePayload msgs body) (timeout_of body) (w0 mh) x w' (fetches w')"
      "resp = (case x of Inl r \<Rightarrow> r | Inr le \<Rightarrow> All_Failed le (modelHealth w'))"
    by blast
  let ?cs = "availableModels e now (provider_of body) mh"
  let ?p = "basePayload msgs body"
  let ?t = "timeout_of body"
  have last_reply: "\<not> (Suc j < length (fetches w') \<or> (\<exists>le'. x = Inr le'))"
  proof
    assume "Suc j < length (fetches w') \<or> (\<exists>le'. x = Inr le')"
    from run_shape_retry[OF b(3) j(1) this]
    obtain m' where "fetches w' ! j = Fetch m' ?p ?t"
        "goes_on (up (length (fetches (w0 mh)) + j) m')"
      by blast
    with j(2) stop show False
      by simp
  qed
  then obtain r where x: "x = Inl r"
    by (cases x) auto
  from last_reply j(1) have jl: "Suc j = length (fetches w')"
    by simp
  from run_shape_Inl[of up ?cs ?p ?t "w0 mh" r w' "fetches w'"] b(3) x
  obtain pre mc rest a where s: "?cs = pre @ mc # rest"
      "fetches w' = plan pre ?p ?t @ replicate (Suc a) (Fetch (model mc) ?p ?t)"
      "a < maxRetries mc"
      "final_response (model mc) a (up (length (fetches w') - 1) (model mc)) = Some r"
      "last (trace w') = Fetch (model mc) ?p ?t"
    by blast
  have jm: "length (fetches w') - 1 = j"
    using jl by simp
  then have "fetches w' ! j = last (fetches w')"
    using ne by (simp add: last_conv_nth)
  also have "\<dots> = Fetch (model mc) ?p ?t"
    by (simp add: s(2))
  finally have same: "m = model mc" "p = ?p" "t = ?t"
    using j(2) by simp_all
  have ja: "j = length (plan pre ?p ?t) + a"
    using jl s(2) by simp
  have fin: "final_response m a (up j m) = Some resp"
    using s(4) same(1) b(4) x unfolding jm by simp
  show ?thesis
    using b(1,2) s(1,2,3,5) same ja fin by blast
qed

lemma final_response_fatal:
  assumes "\<not> (200 \<le> st \<and> st \<le> 299)" and "st \<notin> FALLBACK_STATUS" and "\<not> has_retry_code parsed"
    and "accepts_status (if st = 0 then 500 else st)"
  shows "final_response m a (Responded st body parsed elapsed tm)
     = Some (Upstream_Error m st (Suc a)
         (case parsed of Some v \<Rightarrow> if truthy (Some v) then v else JStr body | None \<Rightarrow> JStr body))"
  using assms
  by (auto simp: final_response_def reply_result_def shouldFallback_def details_of_def
      split: option.splits)

lemma classify_fatal:
  assumes "\<not> (200 \<le> st \<and> st \<le> 299)" and "st \<notin> FALLBACK_STATUS" and "\<not> has_retry_code parsed"
  shows "classify (Responded st body parsed elapsed tm) = FATAL"
  using assms
  by (auto simp: classify_def reply_result_def shouldFallback_def)

lemma fatal_accepted_stops:
  assumes "\<not> (200 \<le> st \<and> st \<le> 299)" and "st \<notin> FALLBACK_STATUS" and "\<not> has_retry_code parsed"
    and "accepts_status (if st = 0 then 500 else st)"
  shows "\<not> goes_on (Responded st body parsed elapsed tm)"
  using assms
  by (auto simp: goes_on_def reply_result_def shouldFallback_def)

lemma fatal_refused_goes_on:
  assumes "st \<notin> FALLBACK_STATUS" and "\<not> has_retry_code parsed"
    and "\<not> accepts_status (if st = 0 then 500 else st)"
    and "\<not> (200 \<le> st \<and> st \<le> 299 \<and> truthy parsed)"
  shows "goes_on (Responded st body parsed elapsed tm)"
    and "error_of m a (Responded st body parsed elapsed tm)
       = Thrown_Error m (Refused_Status (if st = 0 then 500 else st)) (a + 1)"
    and "delay a (Responded st body parsed elapsed tm) = 1000"
  using assms
  by (auto simp: goes_on_def reply_result_def shouldFallback_def error_of_def delay_def)

lemma POST_first_reply:
  assumes "valid_request body msgs"
    and "availableModels e now (provider_of body) mh = c # rest"
    and "final_response (model c) 0 (up 0 (model c)) = Some resp"
  shows "POST e up now (Some body) mh
     = (resp, after_call up (model c) (basePayload msgs body) (timeout_of body) (w0 mh))"
proof -
  have "0 < maxRetries c"
    using available_retries[of e now "provider_of body" mh] assms(2) by auto
  with attempt_loop_final[of 0 c up "w0 mh" resp "basePayload msgs body" "timeout_of body" None] assms(3)
  have "attempt_loop up c (basePayload msgs body) (timeout_of body) 0 None (w0 mh)
     = (Inl resp, after_call up (model c) (basePayload msgs body) (timeout_of body) (w0 mh))"
    by simp
  then show ?thesis
    using POST_valid[OF assms(1), of e up now mh] assms(2) by simp
qed

lemma registry_no_env:
  "MODEL_CONFIGS no_env =
     [\<lparr>model = ''x-ai/grok-4-fast:free'', priority = 1, maxRetries = 2\<rparr>,
      \<lparr>model = ''deepseek/deepseek-chat'', priority = 2, maxRetries = 3\<rparr>,
      \<lparr>model = ''meta-llama/llama-3.1-8b-instruct:free'', priority = 3, maxRetries = 1\<rparr>]"
  by (simp add: MODEL_CONFIGS_def no_env_def)

lemma payload_request_for:
  "basePayload [JObj [(''role'', JStr ''user''), (''content'', JStr ''hi'')]] (request_for pr) = ping"
  by (simp add: basePayload_def request_for_def ping_def finalMaxTokens_def
      MAX_TOKENS_DEFAULT_def MAX_TOKENS_HARD_CAP_def)

lemma timeout_request_for: "timeout_of (request_for pr) = JNum (Num 30000)"
  by (simp add: timeout_of_def request_for_def)

text \<open>
  A fatal reply with a status the constructor accepts. Whenever a call of a request is
  answered with an HTTP failure whose status is not one of 402, 429, 500, 502, 503, 504,
  whose body carries none of the four retry codes, and whose status
  \<^verbatim>\<open>NextResponse.json\<close> accepts, that call is the last event of the request: the
  candidates before its model were called \<open>maxRetries\<close> times each, its model \<open>a + 1\<close>
  times, the candidates after it not at all. The response is the error of that one
  attempt: the model, the status, the attempt number \<open>a + 1\<close> (1 when the model's first
  call fails so) and the parsed body, or the raw text when there is none; it is sent
  with that status.
\<close>

lemma fatal_failure_aborts:
  assumes "POST e up now req mh = (resp, w')"
    and "j < length (fetches w')" and "fetches w' ! j = Fetch m p t"
    and "up j m = Responded st body parsed elapsed tm"
    and "\<not> (200 \<le> st \<and> st \<le> 299)" and "st \<notin> FALLBACK_STATUS" and "\<not> has_retry_code parsed"
    and "accepts_status (if st = 0 then 500 else st)"
  shows "\<exists>rbody msgs pre mc rest a. req = Some rbody \<and> valid_request rbody msgs
      \<and> availableModels e now (provider_of rbody) mh = pre @ mc # rest
      \<and> model mc = m \<and> a < maxRetries mc
      \<and> fetches w' = plan pre p t @ replicate (Suc a) (Fetch m p t)
      \<and> j = length (plan pre p t) + a
      \<and> last (trace w') = Fetch m p t
      \<and> resp = Upstream_Error m st (Suc a)
           (case parsed of Some v \<Rightarrow> if truthy (Some v) then v else JStr body | None \<Rightarrow> JStr body)
      \<and> http_status resp = (if st = 0 then 500 else st)"
proof -
  have "\<not> goes_on (up j m)"
    using fatal_accepted_stops[OF assms(5,6,7,8), of body elapsed tm] assms(4) by simp
  from POST_stops[OF assms(1,2,3) this]
  obtain rbody msgs pre mc rest a where s: "req = Some rbody" "valid_request rbody msgs"
      "availableModels e now (provider_of rbody) mh = pre @ mc # rest"
      "model mc = m" "a < maxRetries mc"
      "fetches w' = plan pre p t @ replicate (Suc a) (Fetch m p t)"
      "j = length (plan pre p t) + a"
      "last (trace w') = Fetch m p t"
      "final_response m a (up j m) = Some resp"
    by blast
  have r: "resp = Upstream_Error m st (Suc a)
           (case parsed of Some v \<Rightarrow> if truthy (Some v) then v else JStr body | None \<Rightarrow> JStr body)"
    using s(9) final_response_fatal[OF assms(5,6,7,8), of m a body elapsed tm] assms(4) by simp
  then have h: "http_status resp = (if st = 0 then 500 else st)"
    by simp
  show ?thesis
    using s(1-8) r h by blast
qed

lemma first_call_bad_request:
  "fst (POST no_env (always 400 None) 0 (Some (request_for (JStr ''auto''))) Map.empty)
     = Upstream_Error ''x-ai/grok-4-fast:free'' 400 1 (JStr ''body'')
   \<and> fetches (snd (POST no_env (always 400 None) 0 (Some (request_for (JStr ''auto''))) Map.empty))
     = [Fetch ''x-ai/grok-4-fast:free'' ping (JNum (Num 30000))]"
proof -
  let ?up = "always 400 None"
  let ?body = "request_for (JStr ''auto'')"
  let ?m = "''x-ai/grok-4-fast:free''"
  let ?t = "JNum (Num 30000)"
  obtain resp w' where post: "POST no_env ?up 0 (Some ?body) Map.empty = (resp, w')"
    by (cases "POST no_env ?up 0 (Some ?body) Map.empty")
  have cs: "availableModels no_env 0 (provider_of ?body) Map.empty
      = \<lparr>model = ?m, priority = 1, maxRetries = 2\<rparr> #
        [\<lparr>model = ''deepseek/deepseek-chat'', priority = 2, maxRetries = 3\<rparr>,
         \<lparr>model = ''meta-llama/llama-3.1-8b-instruct:free'', priority = 3, maxRetries = 1\<rparr>]"
    by (simp add: available_auto_fresh registry_no_env)
  have fin: "final_response ?m 0 (?up 0 ?m) = Some (Upstream_Error ?m 400 1 (JStr ''body''))"
    by (simp add: final_response_def reply_result_def always_def shouldFallback_def
        FALLBACK_STATUS_def has_retry_code_def details_of_def accepts_status_def)
  from POST_first_reply[OF valid_request_for cs, of ?up "Upstream_Error ?m 400 1 (JStr ''body'')"] fin post
  have w': "w' = after_call ?up ?m ping ?t (w0 Map.empty)"
    and r: "resp = Upstream_Error ?m 400 1 (JStr ''body'')"
    by (simp_all add: payload_request_for timeout_request_for)
  then have f: "fetches w' = [Fetch ?m ping ?t]"
    by simp
  show ?thesis
    using post f r by simp
qed

lemma POST_refused:
  assumes "st \<notin> FALLBACK_STATUS" and "\<not> accepts_status st" and "st \<noteq> 0"
  shows "fst (POST no_env (always st None) 0 (Some (request_for (JStr ''auto''))) Map.empty)
      = All_Failed
          (Some (Thrown_Error ''meta-llama/llama-3.1-8b-instruct:free'' (Refused_Status st) 1))
          (modelHealth (snd (POST no_env (always st None) 0
             (Some (request_for (JStr ''auto''))) Map.empty)))
    \<and> length (fetches (snd (POST no_env (always st None) 0
             (Some (request_for (JStr ''auto''))) Map.empty))) = 6"
proof -
  have n: "\<not> has_retry_code None"
    by (simp add: has_retry_code_def)
  have g: "\<forall>n m. goes_on (always st None n m)"
    using fatal_refused_goes_on(1)[of st None] assms n by (simp add: always_def)
  have e: "error_of ''meta-llama/llama-3.1-8b-instruct:free'' 0 (Responded st ''body'' None 10 1000)
      = Thrown_Error ''meta-llama/llama-3.1-8b-instruct:free'' (Refused_Status st) 1"
    using fatal_refused_goes_on(2)[of st None "''meta-llama/llama-3.1-8b-instruct:free''" 0] assms n
    by simp
  from POST_always[OF g] show ?thesis
    unfolding e by auto
qed

text \<open>
  C2. The claim fails in the code for an HTTP failure whose status the \<^verbatim>\<open>Response\<close>
  constructor refuses. Status 304 is not one of 402, 429, 500, 502, 503, 504, and a
  reply without a parsed body has no retry code, so the loop reaches
  \<^verbatim>\<open>return NextResponse.json(..., { status: 304 })\<close>; the constructor throws there,
  inside the \<^verbatim>\<open>try\<close> of the attempt, and the \<^verbatim>\<open>catch\<close> meant for a failed call
  records the exception and goes on. With an upstream that answers every call with 304,
  a request for provider "auto" does not stop at its first call: all six attempts of
  the three models are made, and the answer is "All providers failed after retries",
  status 502, whose \<^verbatim>\<open>lastError\<close> is the exception of the last attempt, not the
  failure (model, status, body) of the first. A status the constructor accepts, such as
  400, ends the request at once (\<open>fatal_failure_aborts\<close>, \<open>first_call_bad_request\<close>).
\<close>

theorem refused_status_is_retried:
  "(304::int) \<notin> FALLBACK_STATUS \<and> \<not> has_retry_code None \<and> \<not> accepts_status 304
   \<and> classify (always 304 None 0 ''x-ai/grok-4-fast:free'') = FATAL
   \<and> goes_on (always 304 None 0 ''x-ai/grok-4-fast:free'')
   \<and> fst (POST no_env (always 304 None) 0 (Some (request_for (JStr ''auto''))) Map.empty)
      = All_Failed
          (Some (Thrown_Error ''meta-llama/llama-3.1-8b-instruct:free'' (Refused_Status 304) 1))
          (modelHealth (snd (POST no_env (always 304 None) 0
             (Some (request_for (JStr ''auto''))) Map.empty)))
   \<and> fst (POST no_env (always 304 None) 0 (Some (request_for (JStr ''auto''))) Map.empty)
      \<noteq> Upstream_Error ''x-ai/grok-4-fast:free'' 304 1 (JStr ''body'')
   \<and> http_status (fst (POST no_env (always 304 None) 0
        (Some (request_for (JStr ''auto''))) Map.empty)) = 502
   \<and> length (fetches (snd (POST no_env (always 304 None) 0
        (Some (request_for (JStr ''auto''))) Map.empty))) = 6"
proof -
  have a: "(304::int) \<notin> FALLBACK_STATUS" "\<not> has_retry_code None" "\<not> accepts_status 304"
    by (simp_all add: FALLBACK_STATUS_def has_retry_code_def accepts_status_def)
  have c: "classify (always 304 None 0 ''x-ai/grok-4-fast:free'') = FATAL"
    using classify_fatal[of 304 None "''body''" 10 1000] a by (simp add: always_def)
  have g: "goes_on (always 304 None 0 ''x-ai/grok-4-fast:free'')"
    using fatal_refused_goes_on(1)[of 304 None "''body''" 10 1000] a by (simp add: always_def)
  from POST_refused[of 304] a
  have p: "fst (POST no_env (always 304 None) 0 (Some (request_for (JStr ''auto''))) Map.empty)
      = All_Failed
          (Some (Thrown_Error ''meta-llama/llama-3.1-8b-instruct:free'' (Refused_Status 304) 1))
          (modelHealth (snd (POST no_env (always 304 None) 0
             (Some (request_for (JStr ''auto''))) Map.empty)))"
    and l: "length (fetches (snd (POST no_env (always 304 None) 0
             (Some (request_for (JStr ''auto''))) Map.empty))) = 6"
    by simp_all
  have h: "http_status (fst (POST no_env (always 304 None) 0
        (Some (request_for (JStr ''auto''))) Map.empty)) = 502"
    and d: "fst (POST no_env (always 304 None) 0 (Some (request_for (JStr ''auto''))) Map.empty)
      \<noteq> Upstream_Error ''x-ai/grok-4-fast:free'' 304 1 (JStr ''body'')"
    by (subst p, simp)+
  show ?thesis
    using a c g p d h l by (intro conjI)
qed

text \<open>
  An unparsed success with a status the constructor accepts. A call answered with a
  status from 200 to 299 other than 204 and 205 and a body that \<^verbatim>\<open>JSON.parse\<close> rejects
  does not give a completion: the status is not a fallback status and there is no
  parsed body to carry a retry code, so the request ends there, with the error response
  that carries the raw text, sent with that 2xx status.
\<close>

lemma unparsed_success_is_fatal:
  assumes "POST e up now req mh = (resp, w')"
    and "j < length (fetches w')" and "fetches w' ! j = Fetch m p t"
    and "up j m = Responded st body None elapsed tm"
    and "200 \<le> st \<and> st \<le> 299" and "st \<noteq> 204" and "st \<noteq> 205"
  shows "\<exists>rbody msgs pre mc rest a. req = Some rbody \<and> valid_request rbody msgs
      \<and> availableModels e now (provider_of rbody) mh = pre @ mc # rest
      \<and> model mc = m \<and> a < maxRetries mc
      \<and> fetches w' = plan pre p t @ replicate (Suc a) (Fetch m p t)
      \<and> j = length (plan pre p t) + a
      \<and> last (trace w') = Fetch m p t
      \<and> resp = Upstream_Error m st (Suc a) (JStr body)
      \<and> http_status resp = st
      \<and> (\<forall>obj. resp \<noteq> Completion obj)"
proof -
  have acc: "accepts_status st"
    using assms(5,6,7) by (simp add: accepts_status_def)
  have fin: "final_response m a (up j m) = Some (Upstream_Error m st (Suc a) (JStr body))" for a
    using assms(4,5) acc
    by (simp add: final_response_def reply_result_def shouldFallback_def details_of_def
        FALLBACK_STATUS_def has_retry_code_def)
  have "\<not> goes_on (up j m)"
    using goes_on_cases[of "up j m" m 0] fin[of 0] by simp
  from POST_stops[OF assms(1,2,3) this]
  obtain rbody msgs pre mc rest a where s: "req = Some rbody" "valid_request rbody msgs"
      "availableModels e now (provider_of rbody) mh = pre @ mc # rest"
      "model mc = m" "a < maxRetries mc"
      "fetches w' = plan pre p t @ replicate (Suc a) (Fetch m p t)"
      "j = length (plan pre p t) + a"
      "last (trace w') = Fetch m p t"
      "final_response m a (up j m) = Some resp"
    by blast
  have r: "resp = Upstream_Error m st (Suc a) (JStr body)"
    using s(9) fin[of a] by simp
  then have h: "http_status resp = st" "\<forall>obj. resp \<noteq> Completion obj"
    using assms(5) by auto
  show ?thesis
    using s(1-8) r h by blast
qed

text \<open>
  C10. The claim fails in the code for the success statuses 204 and 205, by the defect
  of C2. A reply with status 204 has \<^verbatim>\<open>res.ok\<close> true and a body that does not parse
  (a 204 has no content, and \<^verbatim>\<open>JSON.parse\<close> rejects the empty text), so it is no
  completion and asks for no fallback; the loop reaches
  \<^verbatim>\<open>return NextResponse.json(..., { status: 204 })\<close>, the constructor refuses a body
  with that status and throws, and the \<^verbatim>\<open>catch\<close> of the attempt goes on. With an
  upstream that answers every call so, the request is not answered with a
  single-attempt error carrying the raw body and status 204: the three models receive
  all their six attempts and the answer is status 502. The response is indeed no
  completion, and for the other 2xx statuses the claim holds
  (\<open>unparsed_success_is_fatal\<close>).
\<close>

theorem no_content_is_retried:
  "200 \<le> (204::int) \<and> (204::int) \<le> 299 \<and> \<not> accepts_status 204
   \<and> reply_result (always 204 None 0 ''x-ai/grok-4-fast:free'')
      = Some \<lparr>ok = True, status = 204, data = None, raw = ''body'', responseTime = 10\<rparr>
   \<and> goes_on (always 204 None 0 ''x-ai/grok-4-fast:free'')
   \<and> fst (POST no_env (always 204 None) 0 (Some (request_for (JStr ''auto''))) Map.empty)
      = All_Failed
          (Some (Thrown_Error ''meta-llama/llama-3.1-8b-instruct:free'' (Refused_Status 204) 1))
          (modelHealth (snd (POST no_env (always 204 None) 0
             (Some (request_for (JStr ''auto''))) Map.empty)))
   \<and> fst (POST no_env (always 204 None) 0 (Some (request_for (JStr ''auto''))) Map.empty)
      \<noteq> Upstream_Error ''x-ai/grok-4-fast:free'' 204 1 (JStr ''body'')
   \<and> http_status (fst (POST no_env (always 204 None) 0
        (Some (request_for (JStr ''auto''))) Map.empty)) = 502
   \<and> length (fetches (snd (POST no_env (always 204 None) 0
        (Some (request_for (JStr ''auto''))) Map.empty))) = 6"
proof -
  have a: "(204::int) \<notin> FALLBACK_STATUS" "\<not> has_retry_code None" "\<not> accepts_status 204"
    by (simp_all add: FALLBACK_STATUS_def has_retry_code_def accepts_status_def)
  have r: "reply_result (always 204 None 0 ''x-ai/grok-4-fast:free'')
      = Some \<lparr>ok = True, status = 204, data = None, raw = ''body'', responseTime = 10\<rparr>"
    by (simp add: reply_result_def always_def)
  have g: "goes_on (always 204 None 0 ''x-ai/grok-4-fast:free'')"
    using fatal_refused_goes_on(1)[of 204 None "''body''" 10 1000] a by (simp add: always_def)
  from POST_refused[of 204] a
  have p: "fst (POST no_env (always 204 None) 0 (Some (request_for (JStr ''auto''))) Map.empty)
      = All_Failed
          (Some (Thrown_Error ''meta-llama/llama-3.1-8b-instruct:free'' (Refused_Status 204) 1))
          (modelHealth (snd (POST no_env (always 204 None) 0
             (Some (request_for (JStr ''auto''))) Map.empty)))"
    and l: "length (fetches (snd (POST no_env (always 204 None) 0
             (Some (request_for (JStr ''auto''))) Map.empty))) = 6"
    by simp_all
  have h: "http_status (fst (POST no_env (always 204 None) 0
        (Some (request_for (JStr ''auto''))) Map.empty)) = 502"
    and d: "fst (POST no_env (always 204 None) 0 (Some (request_for (JStr ''auto''))) Map.empty)
      \<noteq> Upstream_Error ''x-ai/grok-4-fast:free'' 204 1 (JStr ''body'')"
    by (subst p, simp)+
  show ?thesis
    using a(3) r g p d h l by simp
qed

section \<open>Order of the attempts\<close>

lemma available_sorted: "sorted (map priority (availableModels e now pr mh))"
proof -
  have "sorted (map priority (MODEL_CONFIGS e))"
    by (simp add: MODEL_CONFIGS_def)
  then show ?thesis
    by (simp add: availableModels_def getHealthyModels_def sorted_filter)
qed

lemma attempt_loop_exhaust_fetches:
  assumes "\<forall>n. goes_on (up n (model mc))"
  shows "\<exists>le' w'. attempt_loop up mc p t 0 le w = (Inr le', w')
      \<and> fetches w' = fetches w @ replicate (maxRetries mc) (Fetch (model mc) p t)"
proof -
  from attempt_loop_exhaust[of up mc p t 0 le w] assms
  obtain le' w' where r: "attempt_loop up mc p t 0 le w = (Inr le', w')"
      "trace w' = trace w @ schedule up mc p t (length (fetches w)) 0"
    by blast
  have "fetches w' = fetches w @ replicate (maxRetries mc) (Fetch (model mc) p t)"
    using r(2) by (simp add: fetches_def fetches_schedule)
  with r(1) show ?thesis
    by blast
qed

lemma third_model_answers:
  assumes valid: "valid_request body msgs"
    and cands: "availableModels e now (provider_of body) mh = [c1, c2, c3]"
    and r1: "\<forall>n. goes_on (up n (model c1))"
    and r2: "\<forall>n. goes_on (up n (model c2))"
    and ans: "up (maxRetries c1 + maxRetries c2) (model c3) = Responded st rb parsed el tm"
    and ok: "200 \<le> st \<and> st \<le> 299" "truthy parsed"
  shows "POST e up now (Some body) mh
     = (Completion (completion_object (model c3) 0
          \<lparr>ok = True, status = st, data = parsed, raw = rb, responseTime = el\<rparr>),
        snd (POST e up now (Some body) mh))
     \<and> fetches (snd (POST e up now (Some body) mh))
        = plan [c1, c2] (basePayload msgs body) (timeout_of body)
          @ [Fetch (model c3) (basePayload msgs body) (timeout_of body)]"
proof -
  let ?p = "basePayload msgs body"
  let ?t = "timeout_of body"
  from attempt_loop_exhaust_fetches[of up c1 ?p ?t None "w0 mh"] r1
  obtain le1 w1 where 1: "attempt_loop up c1 ?p ?t 0 None (w0 mh) = (Inr le1, w1)"
      "fetches w1 = fetches (w0 mh) @ replicate (maxRetries c1) (Fetch (model c1) ?p ?t)"
    by blast
  from attempt_loop_exhaust_fetches[of up c2 ?p ?t le1 w1] r2
  obtain le2 w2 where 2: "attempt_loop up c2 ?p ?t 0 le1 w1 = (Inr le2, w2)"
      "fetches w2 = fetches w1 @ replicate (maxRetries c2) (Fetch (model c2) ?p ?t)"
    by blast
  have len: "length (fetches w2) = maxRetries c1 + maxRetries c2"
    using 1(2) 2(2) by simp
  have pos: "0 < maxRetries c3"
    using available_retries[of e now "provider_of body" mh] cands by auto
  have fin: "final_response (model c3) 0 (up (length (fetches w2)) (model c3))
     = Some (Completion (completion_object (model c3) 0
          \<lparr>ok = True, status = st, data = parsed, raw = rb, responseTime = el\<rparr>))"
    using ans ok by (simp add: len final_response_def reply_result_def)
  have 3: "attempt_loop up c3 ?p ?t 0 le2 w2
     = (Inl (Completion (completion_object (model c3) 0
          \<lparr>ok = True, status = st, data = parsed, raw = rb, responseTime = el\<rparr>)),
        after_call up (model c3) ?p ?t w2)"
    using attempt_loop_final[of 0 c3 up w2 _ ?p ?t le2] pos fin by simp
  have loop: "model_loop up [c1, c2, c3] ?p ?t None (w0 mh)
     = (Inl (Completion (completion_object (model c3) 0
          \<lparr>ok = True, status = st, data = parsed, raw = rb, responseTime = el\<rparr>)),
        after_call up (model c3) ?p ?t w2)"
    using 1(1) 2(1) 3 by simp
  have post: "POST e up now (Some body) mh
     = (Completion (completion_object (model c3) 0
          \<lparr>ok = True, status = st, data = parsed, raw = rb, responseTime = el\<rparr>),
        after_call up (model c3) ?p ?t w2)"
    using POST_valid[OF valid, of e up now mh] cands loop by simp
  have "fetches (after_call up (model c3) ?p ?t w2) = plan [c1, c2] ?p ?t @ [Fetch (model c3) ?p ?t]"
    using 1(2) 2(2) by simp
  with post show ?thesis
    by simp
qed

lemma completion_object_spread:
  assumes "spread (data r) k = Some v"
  shows "completion_object m a r k = Some v"
  using assms by (simp add: completion_object_def map_add_def)

lemma completion_object_fields:
  assumes "spread (data r) ''attempt'' = None" and "spread (data r) ''model_used'' = None"
  shows "completion_object m a r ''attempt'' = Some (JNum (Num (real (a + 1))))"
    and "completion_object m a r ''model_used'' = Some (JStr m)"
  using assms by (simp_all add: completion_object_def map_add_def)

lemma classify_third_answers:
  "m \<noteq> ''meta-llama/llama-3.1-8b-instruct:free'' \<Longrightarrow> classify (third_answers parsed n m) = RETRYABLE"
  by (simp add: third_answers_def classify_def reply_result_def shouldFallback_def FALLBACK_STATUS_def)

lemma goes_on_third_answers:
  "m \<noteq> ''meta-llama/llama-3.1-8b-instruct:free'' \<Longrightarrow> goes_on (third_answers parsed n m)"
  by (simp add: classify_third_answers retryable_goes_on)

lemma third_answers_run:
  assumes "truthy (Some parsed)"
  shows "fst (POST no_env (third_answers parsed) 0 (Some (request_for (JStr ''auto''))) Map.empty)
     = Completion (completion_object ''meta-llama/llama-3.1-8b-instruct:free'' 0
          \<lparr>ok = True, status = 200, data = Some parsed, raw = ''body'', responseTime = 10\<rparr>)"
    and "fetches (snd (POST no_env (third_answers parsed) 0
          (Some (request_for (JStr ''auto''))) Map.empty))
     = [Fetch ''x-ai/grok-4-fast:free'' ping (JNum (Num 30000)),
        Fetch ''x-ai/grok-4-fast:free'' ping (JNum (Num 30000)),
        Fetch ''deepseek/deepseek-chat'' ping (JNum (Num 30000)),
        Fetch ''deepseek/deepseek-chat'' ping (JNum (Num 30000)),
        Fetch ''deepseek/deepseek-chat'' ping (JNum (Num 30000)),
        Fetch ''meta-llama/llama-3.1-8b-instruct:free'' ping (JNum (Num 30000))]"
proof -
  let ?body = "request_for (JStr ''auto'')"
  let ?msgs = "[JObj [(''role'', JStr ''user''), (''content'', JStr ''hi'')]]"
  let ?c1 = "\<lparr>model = ''x-ai/grok-4-fast:free'', priority = 1, maxRetries = 2\<rparr>"
  let ?c2 = "\<lparr>model = ''deepseek/deepseek-chat'', priority = 2, maxRetries = 3\<rparr>"
  let ?c3 = "\<lparr>model = ''meta-llama/llama-3.1-8b-instruct:free'', priority = 3, maxRetries = 1\<rparr>"
  let ?P = "POST no_env (third_answers parsed) 0 (Some ?body) Map.empty"
  let ?r = "\<lparr>ok = True, status = 200, data = Some parsed, raw = ''body'', responseTime = 10\<rparr>"
  have cs: "availableModels no_env 0 (provider_of ?body) Map.empty = [?c1, ?c2, ?c3]"
    by (simp add: available_auto_fresh registry_no_env)
  have r1: "\<forall>n. goes_on (third_answers parsed n (model ?c1))"
    and r2: "\<forall>n. goes_on (third_answers parsed n (model ?c2))"
    by (simp_all add: goes_on_third_answers)
  have ans: "third_answers parsed (maxRetries ?c1 + maxRetries ?c2) (model ?c3)
      = Responded 200 ''body'' (Some parsed) 10 1000"
    by (simp add: third_answers_def)
  have ok: "200 \<le> (200::int) \<and> (200::int) \<le> 299"
    by simp
  note run = third_model_answers[OF valid_request_for cs r1 r2 ans ok assms]
  from run have a: "?P = (Completion (completion_object (model ?c3) 0 ?r), snd ?P)"
    by (rule conjunct1)
  from run have b: "fetches (snd ?P) = plan [?c1, ?c2] (basePayload ?msgs ?body) (timeout_of ?body)
          @ [Fetch (model ?c3) (basePayload ?msgs ?body) (timeout_of ?body)]"
    by (rule conjunct2)
  have "fst ?P = Completion (completion_object (model ?c3) 0 ?r)"
    by (subst a) simp
  then show "fst ?P = Completion (completion_object ''meta-llama/llama-3.1-8b-instruct:free'' 0 ?r)"
    by simp
  have pl: "plan [?c1, ?c2] ping (JNum (Num 30000))
      = [Fetch ''x-ai/grok-4-fast:free'' ping (JNum (Num 30000)),
         Fetch ''x-ai/grok-4-fast:free'' ping (JNum (Num 30000)),
         Fetch ''deepseek/deepseek-chat'' ping (JNum (Num 30000)),
         Fetch ''deepseek/deepseek-chat'' ping (JNum (Num 30000)),
         Fetch ''deepseek/deepseek-chat'' ping (JNum (Num 30000))]"
    by (simp add: plan_def numeral_2_eq_2 numeral_3_eq_3)
  show "fetches (snd ?P)
     = [Fetch ''x-ai/grok-4-fast:free'' ping (JNum (Num 30000)),
        Fetch ''x-ai/grok-4-fast:free'' ping (JNum (Num 30000)),
        Fetch ''deepseek/deepseek-chat'' ping (JNum (Num 30000)),
        Fetch ''deepseek/deepseek-chat'' ping (JNum (Num 30000)),
        Fetch ''deepseek/deepseek-chat'' ping (JNum (Num 30000)),
        Fetch ''meta-llama/llama-3.1-8b-instruct:free'' ping (JNum (Num 30000))]"
    unfolding b payload_request_for timeout_request_for pl by simp
qed

text \<open>
  The order of the calls. The candidates are in ascending order of priority, and the
  calls of a request are an initial part of the plan: the first candidate \<open>maxRetries\<close>
  times, then the second, and so on, so a model is called only after every attempt of
  the ones before it. With three candidates of which the first two always fail
  retryably and the third answers its first call with a completion, the response is
  that completion; its \<^verbatim>\<open>attempt\<close> is 1 and its \<^verbatim>\<open>model_used\<close> the third model
  when the upstream's body has no property of that name.
\<close>

lemma priority_order_and_fallback:
  assumes "valid_request body msgs"
  shows "sorted (map priority (availableModels e now (provider_of body) mh))
     \<and> prefix (fetches (snd (POST e up now (Some body) mh)))
          (plan (availableModels e now (provider_of body) mh) (basePayload msgs body) (timeout_of body))
     \<and> (availableModels e now (provider_of body) mh = [c1, c2, c3]
        \<and> (\<forall>n. classify (up n (model c1)) = RETRYABLE)
        \<and> (\<forall>n. classify (up n (model c2)) = RETRYABLE)
        \<and> up (maxRetries c1 + maxRetries c2) (model c3) = Responded st rb parsed el tm
        \<and> 200 \<le> st \<and> st \<le> 299 \<and> truthy parsed
        \<and> spread parsed ''attempt'' = None \<and> spread parsed ''model_used'' = None
        \<longrightarrow> (\<exists>obj. fst (POST e up now (Some body) mh) = Completion obj
               \<and> obj ''attempt'' = Some (JNum (Num 1))
               \<and> obj ''model_used'' = Some (JStr (model c3)))
          \<and> fetches (snd (POST e up now (Some body) mh))
              = plan [c1, c2] (basePayload msgs body) (timeout_of body)
                @ [Fetch (model c3) (basePayload msgs body) (timeout_of body)])"
proof (intro conjI impI)
  show "sorted (map priority (availableModels e now (provider_of body) mh))"
    by (rule available_sorted)
  show "prefix (fetches (snd (POST e up now (Some body) mh)))
          (plan (availableModels e now (provider_of body) mh) (basePayload msgs body) (timeout_of body))"
    by (rule POST_prefix[OF assms])
next
  assume h: "availableModels e now (provider_of body) mh = [c1, c2, c3]
        \<and> (\<forall>n. classify (up n (model c1)) = RETRYABLE)
        \<and> (\<forall>n. classify (up n (model c2)) = RETRYABLE)
        \<and> up (maxRetries c1 + maxRetries c2) (model c3) = Responded st rb parsed el tm
        \<and> 200 \<le> st \<and> st \<le> 299 \<and> truthy parsed
        \<and> spread parsed ''attempt'' = None \<and> spread parsed ''model_used'' = None"
  let ?r = "\<lparr>ok = True, status = st, data = parsed, raw = rb, responseTime = el\<rparr>"
  from h have g: "\<forall>n. goes_on (up n (model c1))" "\<forall>n. goes_on (up n (model c2))"
    by (simp_all add: retryable_goes_on)
  from h g third_model_answers[of body msgs e now mh c1 c2 c3 up st rb parsed el tm] assms
  have a: "POST e up now (Some body) mh
     = (Completion (completion_object (model c3) 0 ?r), snd (POST e up now (Some body) mh))"
    and b: "fetches (snd (POST e up now (Some body) mh))
        = plan [c1, c2] (basePayload msgs body) (timeout_of body)
          @ [Fetch (model c3) (basePayload msgs body) (timeout_of body)]"
    by simp_all
  from a have "fst (POST e up now (Some body) mh) = Completion (completion_object (model c3) 0 ?r)"
    by (metis fst_conv)
  moreover have "completion_object (model c3) 0 ?r ''attempt'' = Some (JNum (Num 1))"
    "completion_object (model c3) 0 ?r ''model_used'' = Some (JStr (model c3))"
    using h completion_object_fields[of ?r "model c3" 0] by simp_all
  ultimately show "\<exists>obj. fst (POST e up now (Some body) mh) = Completion obj
               \<and> obj ''attempt'' = Some (JNum (Num 1))
               \<and> obj ''model_used'' = Some (JStr (model c3))"
    by blast
  show "fetches (snd (POST e up now (Some body) mh))
              = plan [c1, c2] (basePayload msgs body) (timeout_of body)
                @ [Fetch (model c3) (basePayload msgs body) (timeout_of body)]"
    by (rule b)
qed


lemma plain_completion_of_third:
  "valid_request (request_for (JStr ''auto'')) [JObj [(''role'', JStr ''user''), (''content'', JStr ''hi'')]]
   \<and> map priority (availableModels no_env 0 (provider_of (request_for (JStr ''auto''))) Map.empty)
     = [1, 2, 3]
   \<and> (\<exists>obj. fst (POST no_env (third_answers (JObj [(''id'', JStr ''c1'')])) 0
                (Some (request_for (JStr ''auto''))) Map.empty) = Completion obj
         \<and> obj ''attempt'' = Some (JNum (Num 1))
         \<and> obj ''model_used'' = Some (JStr ''meta-llama/llama-3.1-8b-instruct:free''))
   \<and> length (fetches (snd (POST no_env (third_answers (JObj [(''id'', JStr ''c1'')])) 0
                (Some (request_for (JStr ''auto''))) Map.empty))) = 6"
proof -
  let ?body = "request_for (JStr ''auto'')"
  let ?parsed = "JObj [(''id'', JStr ''c1'')]"
  let ?up = "third_answers ?parsed"
  let ?c1 = "\<lparr>model = ''x-ai/grok-4-fast:free'', priority = 1, maxRetries = 2\<rparr>"
  let ?c2 = "\<lparr>model = ''deepseek/deepseek-chat'', priority = 2, maxRetries = 3\<rparr>"
  let ?c3 = "\<lparr>model = ''meta-llama/llama-3.1-8b-instruct:free'', priority = 3, maxRetries = 1\<rparr>"
  have cs: "availableModels no_env 0 (provider_of ?body) Map.empty = [?c1, ?c2, ?c3]"
    by (simp add: available_auto_fresh registry_no_env)
  have retry: "(\<forall>n. classify (?up n (model ?c1)) = RETRYABLE)"
      "(\<forall>n. classify (?up n (model ?c2)) = RETRYABLE)"
    by (simp_all add: classify_third_answers)
  have hyp: "?up (maxRetries ?c1 + maxRetries ?c2) (model ?c3) = Responded 200 ''body'' (Some ?parsed) 10 1000"
      "spread (Some ?parsed) ''attempt'' = None" "spread (Some ?parsed) ''model_used'' = None"
    by (simp_all add: third_answers_def)
  from priority_order_and_fallback[OF valid_request_for, of no_env 0 "JStr ''auto''" Map.empty ?up
      ?c1 ?c2 ?c3 200 "''body''" "Some ?parsed" 10 1000] cs retry hyp
  have "(\<exists>obj. fst (POST no_env ?up 0 (Some ?body) Map.empty) = Completion obj
               \<and> obj ''attempt'' = Some (JNum (Num 1))
               \<and> obj ''model_used'' = Some (JStr (model ?c3)))
      \<and> fetches (snd (POST no_env ?up 0 (Some ?body) Map.empty))
              = plan [?c1, ?c2] (basePayload [JObj [(''role'', JStr ''user''), (''content'', JStr ''hi'')]] ?body) (timeout_of ?body)
                @ [Fetch (model ?c3) (basePayload [JObj [(''role'', JStr ''user''), (''content'', JStr ''hi'')]] ?body) (timeout_of ?body)]"
    by simp
  then show ?thesis
    using valid_request_for cs by simp
qed

text \<open>
  C6. The order of the calls is as the claim says (\<open>priority_order_and_fallback\<close>), but
  the success response does not always report the attempt and the model of the call
  that succeeded. The response object is built as
  \<^verbatim>\<open>{ model_used, response_time, attempt, health_status, ...result.data }\<close>: the
  handler sets \<^verbatim>\<open>attempt\<close> and \<^verbatim>\<open>model_used\<close> and then spreads the upstream's body
  over them, so a property of the body with one of these names replaces the handler's
  value. (The error response of the same loop keeps the body apart, under
  \<^verbatim>\<open>details\<close>.) With the three registry models, the first two answering every call
  with 429 and the third answering its first call with the completion
  \<^verbatim>\<open>{"attempt": 7, "model_used": "other"}\<close>, the six calls are made in order and the
  third model's success is returned with \<^verbatim>\<open>attempt\<close> 7 and \<^verbatim>\<open>model_used\<close> "other",
  not 1 and the third model's identifier.
\<close>

theorem fallback_fields_overridden:
  "map priority (availableModels no_env 0 (JStr ''auto'') Map.empty) = [1, 2, 3]
   \<and> fetches (snd (POST no_env
        (third_answers (JObj [(''attempt'', JNum (Num 7)), (''model_used'', JStr ''other'')])) 0
        (Some (request_for (JStr ''auto''))) Map.empty))
      = [Fetch ''x-ai/grok-4-fast:free'' ping (JNum (Num 30000)),
         Fetch ''x-ai/grok-4-fast:free'' ping (JNum (Num 30000)),
         Fetch ''deepseek/deepseek-chat'' ping (JNum (Num 30000)),
         Fetch ''deepseek/deepseek-chat'' ping (JNum (Num 30000)),
         Fetch ''deepseek/deepseek-chat'' ping (JNum (Num 30000)),
         Fetch ''meta-llama/llama-3.1-8b-instruct:free'' ping (JNum (Num 30000))]
   \<and> fst (POST no_env
        (third_answers (JObj [(''attempt'', JNum (Num 7)), (''model_used'', JStr ''other'')])) 0
        (Some (request_for (JStr ''auto''))) Map.empty)
      = Completion (completion_object ''meta-llama/llama-3.1-8b-instruct:free'' 0
          \<lparr>ok = True, status = 200,
           data = Some (JObj [(''attempt'', JNum (Num 7)), (''model_used'', JStr ''other'')]),
           raw = ''body'', responseTime = 10\<rparr>)
   \<and> completion_object ''meta-llama/llama-3.1-8b-instruct:free'' 0
          \<lparr>ok = True, status = 200,
           data = Some (JObj [(''attempt'', JNum (Num 7)), (''model_used'', JStr ''other'')]),
           raw = ''body'', responseTime = 10\<rparr> ''attempt'' = Some (JNum (Num 7))
   \<and> completion_object ''meta-llama/llama-3.1-8b-instruct:free'' 0
          \<lparr>ok = True, status = 200,
           data = Some (JObj [(''attempt'', JNum (Num 7)), (''model_used'', JStr ''other'')]),
           raw = ''body'', responseTime = 10\<rparr> ''model_used'' = Some (JStr ''other'')
   \<and> JNum (Num 7) \<noteq> JNum (Num 1)
   \<and> JStr ''other'' \<noteq> JStr ''meta-llama/llama-3.1-8b-instruct:free''"
proof -
  let ?parsed = "JObj [(''attempt'', JNum (Num 7)), (''model_used'', JStr ''other'')]"
  have t: "truthy (Some ?parsed)"
    by simp
  note run = third_answers_run[OF t]
  have pr: "map priority (availableModels no_env 0 (JStr ''auto'') Map.empty) = [1, 2, 3]"
    by (simp add: available_auto_fresh registry_no_env)
  have f: "completion_object ''meta-llama/llama-3.1-8b-instruct:free'' 0
          \<lparr>ok = True, status = 200, data = Some ?parsed, raw = ''body'', responseTime = 10\<rparr>
          ''attempt'' = Some (JNum (Num 7))"
    "completion_object ''meta-llama/llama-3.1-8b-instruct:free'' 0
          \<lparr>ok = True, status = 200, data = Some ?parsed, raw = ''body'', responseTime = 10\<rparr>
          ''model_used'' = Some (JStr ''other'')"
    by (simp_all add: completion_object_spread)
  have d: "JNum (Num 7) \<noteq> JNum (Num 1)"
    "JStr ''other'' \<noteq> JStr ''meta-llama/llama-3.1-8b-instruct:free''"
    by simp_all
  show ?thesis
    apply (intro conjI)
          apply (rule pr)
         apply (rule run(2))
        apply (rule run(1))
       apply (rule f(1))
      apply (rule f(2))
     apply (rule d(1))
    apply (rule d(2))
    done
qed

end
